theory Spec2Isabelle
  imports Main
begin

section \<open>Data model\<close>

text \<open>
  The pipeline of \<^verbatim>\<open>feedback_analyze_pipeline.py\<close> works on pandas frames. A cell of an
  optional column is either the missing value NaN or a text. Texts are byte strings
  (UTF-8); Python's \<^verbatim>\<open>lower\<close> and \<^verbatim>\<open>strip\<close> are modelled on their ASCII part.

  Two things that pandas does below the code are not modelled. Columns are text columns
  throughout: the type that \<^verbatim>\<open>read_csv\<close> infers for a column (a comment column without a
  single text is a float column, on which \<^verbatim>\<open>.str\<close> raises) plays no part. And a CSV file
  gives back the rows that were written to it: that the empty text and markers such as
  \<^verbatim>\<open>NA\<close> come back as NaN plays no part either.
\<close>

datatype cell = NaN | Str string

text \<open>
  One row of a frame. The four columns every input file carries hold text (for the three
  identity columns: the text that the f-string of \<^verbatim>\<open>create_record_key\<close> interpolates).
  The five optional columns hold cells; a row of a frame that lacks the column carries
  \<open>NaN\<close> there, which is also what \<^verbatim>\<open>pd.concat\<close> fills in.
\<close>

record row =
  request_time :: string
  user_question :: string
  bot_answer :: string
  feedback_rating :: string
  feedback_comment :: cell
  category :: cell
  sub_category :: cell
  feedback_comment_category :: cell
  scenario :: cell

text \<open>
  A frame: the names of the optional columns it has, and its rows in order, each with its
  index label. \<^verbatim>\<open>DataFrame.empty\<close> is "no rows" here, the four fixed columns being there.
\<close>

record dataframe =
  columns :: "string list"
  body :: "(nat \<times> row) list"

definition unique_index :: "dataframe \<Rightarrow> bool" where
  "unique_index df = distinct (map fst (body df))"

definition empty_frame :: "dataframe \<Rightarrow> bool" where
  "empty_frame df = (body df = [])"

text \<open>\<^verbatim>\<open>pd.DataFrame()\<close>\<close>

definition DataFrame :: dataframe where
  "DataFrame = \<lparr>columns = [], body = []\<rparr>"

text \<open>\<^verbatim>\<open>df.loc[labels]\<close>: for each label in turn, the rows that carry it.\<close>

definition loc :: "dataframe \<Rightarrow> nat list \<Rightarrow> dataframe" where
  "loc df labels = df\<lparr>body := concat (map (\<lambda>l. filter (\<lambda>(idx, r). idx = l) (body df)) labels)\<rparr>"

text \<open>\<^verbatim>\<open>df.at[idx, column] = value\<close>, the assignment given as the row update \<open>f\<close>.\<close>

definition at_update :: "nat \<Rightarrow> (row \<Rightarrow> row) \<Rightarrow> dataframe \<Rightarrow> dataframe" where
  "at_update idx f df = df\<lparr>body := map (\<lambda>(i, r). if i = idx then (i, f r) else (i, r)) (body df)\<rparr>"

text \<open>\<^verbatim>\<open>df[column] = value\<close> for a new column: every row gets the value.\<close>

definition add_column :: "string \<Rightarrow> (row \<Rightarrow> row) \<Rightarrow> dataframe \<Rightarrow> dataframe" where
  "add_column name f df = \<lparr>columns = columns df @ [name], body = map (\<lambda>(i, r). (i, f r)) (body df)\<rparr>"

subsection \<open>Text helpers\<close>

definition is_space :: "char \<Rightarrow> bool" where
  "is_space c = (c \<in> set [CHR 0x09, CHR 0x0A, CHR 0x0B, CHR 0x0C, CHR 0x0D,
                            CHR 0x1C, CHR 0x1D, CHR 0x1E, CHR 0x1F, CHR '' ''])"

definition strip :: "string \<Rightarrow> string" where
  "strip s = rev (dropWhile is_space (rev (dropWhile is_space s)))"

definition lower_char :: "char \<Rightarrow> char" where
  "lower_char c =
     (case map_of (zip ''ABCDEFGHIJKLMNOPQRSTUVWXYZ'' ''abcdefghijklmnopqrstuvwxyz'') c of
        Some l \<Rightarrow> l
      | None \<Rightarrow> c)"

definition lower :: "string \<Rightarrow> string" where
  "lower s = map lower_char s"

text \<open>\<^verbatim>\<open>pd.isna(c) or c.strip() == ''\<close>\<close>

fun blank :: "cell \<Rightarrow> bool" where
  "blank NaN = True"
| "blank (Str s) = (strip s = [])"

subsection \<open>Files\<close>

text \<open>
  A CSV file of feedback rows holds the optional columns of its header and its rows;
  \<^verbatim>\<open>to_csv(index=False)\<close> drops the index labels and \<^verbatim>\<open>read_csv\<close> numbers the rows from 0.
  A path is absent, or holds a file that \<^verbatim>\<open>read_csv\<close> raises on, or one that it reads.
\<close>

type_synonym table = "string list \<times> row list"

datatype 'a stored = Absent | Unreadable 'a | Readable 'a

type_synonym disk = "string \<Rightarrow> table stored"

definition read_csv :: "table \<Rightarrow> dataframe" where
  "read_csv t = \<lparr>columns = fst t, body = enumerate 0 (snd t)\<rparr>"

definition to_csv :: "dataframe \<Rightarrow> table" where
  "to_csv df = (columns df, map snd (body df))"

definition data_file :: string where
  "data_file = ''data/pws_chatbot_qa_feedbacks.csv''"

definition comments_output_file :: string where
  "comments_output_file = ''data/pws_chatbot_qa_feedbacks_with_comments.csv''"

datatype exn = ReadError | KeyError | ZeroDivisionError

subsection \<open>The external capability\<close>

text \<open>
  A request is the prompt built from a record. The capability answers each call with a
  failure (the call or \<^verbatim>\<open>json.loads\<close> raises, or the parsed value is not an object) or
  with a JSON object, whose fields are strings or null. Calls are told apart by the
  number of the task that makes them, so two equal prompts may be answered differently.
\<close>

datatype request =
    GenerateBotComment string string
  | CategorizeQuestion string string
  | CategorizeFeedbackComment string

datatype jvalue = JString string | JNull

datatype reply = Failure | JObject "string \<Rightarrow> jvalue option"

type_synonym capability = "nat \<Rightarrow> request \<Rightarrow> reply"

type_synonym call = "nat \<times> request"

text \<open>
  The environment of a run: the capability, which paths \<^verbatim>\<open>to_csv\<close> raises on, and the
  reference list of known questions (its \<^verbatim>\<open>question\<close> column).
\<close>

record env =
  llm :: capability
  to_csv_raises :: "string \<Rightarrow> bool"
  mapped_questions_file :: "cell list stored"

text \<open>
  A Python value handed back by a task: \<open>None\<close> is Python's \<^verbatim>\<open>None\<close>, \<open>Some c\<close> a cell.
  \<^verbatim>\<open>if value:\<close> is false on \<^verbatim>\<open>None\<close> and on the empty text, and true on NaN.
\<close>

fun truthy :: "cell option \<Rightarrow> bool" where
  "truthy None = False"
| "truthy (Some NaN) = True"
| "truthy (Some (Str s)) = (s \<noteq> [])"

text \<open>\<^verbatim>\<open>result.get(key, default)\<close>\<close>

definition dict_get :: "(string \<Rightarrow> jvalue option) \<Rightarrow> string \<Rightarrow> string \<Rightarrow> cell option" where
  "dict_get result k dflt =
     (case result k of
        None \<Rightarrow> Some (Str dflt)
      | Some JNull \<Rightarrow> None
      | Some (JString s) \<Rightarrow> Some (Str s))"

section \<open>Record identity\<close>

text \<open>
  \<^verbatim>\<open>create_record_key\<close>:
  \<^verbatim>\<open>return f"{row['request_time']}|{row['user_question']}|{row['bot_answer']}"\<close>
\<close>

definition create_record_key :: "row \<Rightarrow> string" where
  "create_record_key r = request_time r @ ''|'' @ user_question r @ ''|'' @ bot_answer r"

section \<open>Unprocessed-record filter\<close>

definition get_processed_records :: "disk \<Rightarrow> string \<Rightarrow> string set" where
  "get_processed_records d output_file =
     (case d output_file of
        Absent \<Rightarrow> {}
      | Unreadable t \<Rightarrow> {}
      | Readable t \<Rightarrow> set (map (\<lambda>(idx, r). create_record_key r) (body (read_csv t))))"

definition filter_unprocessed_records :: "disk \<Rightarrow> dataframe \<Rightarrow> string \<Rightarrow> dataframe" where
  "filter_unprocessed_records d df output_file =
     (let processed_keys = get_processed_records d output_file in
      if processed_keys = {} then df
      else
        let unprocessed_indices =
              map fst (filter (\<lambda>(idx, r). create_record_key r \<notin> processed_keys) (body df))
        in loc df unprocessed_indices)"

section \<open>Incremental merge\<close>

text \<open>\<^verbatim>\<open>pd.concat([a, b], ignore_index=True)\<close>\<close>

definition concat_ignore_index :: "dataframe \<Rightarrow> dataframe \<Rightarrow> dataframe" where
  "concat_ignore_index a b =
     \<lparr>columns = columns a @ filter (\<lambda>c. c \<notin> set (columns a)) (columns b),
      body = enumerate 0 (map snd (body a) @ map snd (body b))\<rparr>"

text \<open>\<^verbatim>\<open>drop_duplicates(subset=[key], keep='last')\<close> on a list, the key given as a function.\<close>

fun keep_last :: "('a \<Rightarrow> 'k) \<Rightarrow> 'a list \<Rightarrow> 'a list" where
  "keep_last key [] = []"
| "keep_last key (x # xs) =
     (if key x \<in> set (map key xs) then keep_last key xs else x # keep_last key xs)"

definition drop_duplicates_keep_last :: "dataframe \<Rightarrow> dataframe" where
  "drop_duplicates_keep_last df = df\<lparr>body := keep_last (\<lambda>(idx, r). create_record_key r) (body df)\<rparr>"

definition merge_with_existing_results :: "disk \<Rightarrow> dataframe \<Rightarrow> string \<Rightarrow> dataframe" where
  "merge_with_existing_results d new_df output_file =
     (case d output_file of
        Absent \<Rightarrow> new_df
      | Unreadable t \<Rightarrow> new_df
      | Readable t \<Rightarrow>
          (let existing_df = read_csv t;
               combined_df = concat_ignore_index existing_df new_df
           in drop_duplicates_keep_last combined_df))"

definition rows_with_key :: "string \<Rightarrow> dataframe \<Rightarrow> row list" where
  "rows_with_key k df = filter (\<lambda>r. create_record_key r = k) (map snd (body df))"

section \<open>Comment generation\<close>

text \<open>
  The condition of \<^verbatim>\<open>identify_thumbs_down_empty_feedback\<close>, which
  \<^verbatim>\<open>process_single_comment\<close> repeats.
\<close>

definition thumbs_down_empty :: "row \<Rightarrow> bool" where
  "thumbs_down_empty r = (feedback_rating r = ''THUMBS_DOWN'' \<and> blank (feedback_comment r))"

definition identify_thumbs_down_empty_feedback :: "dataframe \<Rightarrow> dataframe" where
  "identify_thumbs_down_empty_feedback df =
     df\<lparr>body := filter (\<lambda>(idx, r). thumbs_down_empty r) (body df)\<rparr>"

text \<open>
  \<^verbatim>\<open>generate_bot_comment_async\<close>, called by task \<open>k\<close>: the value it returns and the call
  it sends. Any exception gives \<^verbatim>\<open>None\<close>.
\<close>

definition generate_bot_comment_async ::
  "capability \<Rightarrow> nat \<Rightarrow> string \<Rightarrow> string \<Rightarrow> cell option \<times> call list" where
  "generate_bot_comment_async cap k q a =
     (case cap k (GenerateBotComment q a) of
        Failure \<Rightarrow> None
      | JObject result \<Rightarrow> dict_get result ''comment'' [],
      [(k, GenerateBotComment q a)])"

text \<open>
  \<^verbatim>\<open>process_single_comment\<close> reads \<^verbatim>\<open>row['feedback_comment']\<close> on both branches, outside
  its \<^verbatim>\<open>try\<close>: on a frame without that column the task raises, and \<^verbatim>\<open>gather\<close> hands the
  exception back as the task's result. The task's own \<^verbatim>\<open>except\<close> is never reached, the
  generator raising nothing.
\<close>

definition process_single_comment ::
  "capability \<Rightarrow> string list \<Rightarrow> nat \<Rightarrow> nat \<Rightarrow> row \<Rightarrow> (exn + nat \<times> cell option) \<times> call list" where
  "process_single_comment cap cols k idx r =
     (if ''feedback_comment'' \<notin> set cols then (Inl KeyError, [])
      else if feedback_rating r = ''THUMBS_DOWN'' \<and> blank (feedback_comment r) then
        (let (comment, sent) = generate_bot_comment_async cap k (user_question r) (bot_answer r)
         in (Inr (idx, comment), sent))
      else (Inr (idx, Some (feedback_comment r)), []))"

fun store_comment :: "dataframe \<Rightarrow> (exn + nat \<times> cell option) \<Rightarrow> dataframe" where
  "store_comment result_df (Inl e) = result_df"
| "store_comment result_df (Inr (idx, None)) = result_df"
| "store_comment result_df (Inr (idx, Some comment)) =
     (if truthy (Some comment)
      then at_update idx (\<lambda>r. r\<lparr>feedback_comment := comment\<rparr>) result_df
      else result_df)"

definition add_comments_async :: "capability \<Rightarrow> dataframe \<Rightarrow> dataframe \<times> call list" where
  "add_comments_async cap df =
     (let result_df =
            (if ''feedback_comment'' \<notin> set (columns df)
             then add_column ''feedback_comment'' (\<lambda>r. r\<lparr>feedback_comment := Str []\<rparr>) df
             else df);
          thumbs_down_empty_df = identify_thumbs_down_empty_feedback result_df
      in if empty_frame thumbs_down_empty_df then (result_df, [])
         else
           let results =
                 map (\<lambda>(k, idx, r). process_single_comment cap (columns df) k idx r)
                   (enumerate 0 (body df))
           in (foldl store_comment result_df (map fst results), concat (map snd results)))"

section \<open>Category classification\<close>

text \<open>The sitemap of the system prompt of \<^verbatim>\<open>categorize_question_async\<close>.\<close>

definition sitemap :: "(string \<times> string list) list" where
  "sitemap =
   [(''Accounts'',
      [''HSBC One'',
       ''HSBC Premier'',
       ''HSBC Advance'',
       ''HSBC Jade'',
       ''PayMe from HSBC'',
       ''Savings accounts'',
       ''Current accounts'',
       ''Time deposits'',
       ''Foreign currency accounts'',
       ''Joint accounts'',
       ''Children's accounts'',
       ''Student accounts'',
       ''Fees and charges'',
       ''Greater Bay Area Services'',
       ''HSBC GBA Wealth Management Connect'']),
    (''Ways to bank'',
      [''Branch Banking'',
       ''Online Banking'',
       ''Chat with us'',
       ''HSBC Mobile Apps'',
       ''HSBC HK Mobile Banking app'',
       ''Mobile account opening'',
       ''HSBC HK Mobile Banking App - Lite Mode'',
       ''Mobile Cash Withdrawal'',
       ''Mobile cheque deposit'',
       ''Phone banking'',
       ''30-Day Service Pledge'']),
    (''HSBC credit cards'',
      [''Compare credit cards'',
       ''eStatements'',
       ''HSBC EveryMile Credit Card'',
       ''HSBC Premier Mastercard'' @ [CHR 0xC2, CHR 0xAE],
       ''HSBC Red Credit Card'',
       ''HSBC Visa Gold Card for Students'',
       ''HSBC Pulse UnionPay Dual Currency Diamond Credit Card'',
       ''HSBC UnionPay Dual Currency Credit Card'',
       ''HSBC Visa Gold Card'',
       ''HSBC easy Credit Card / Visa Platinum Credit Card'',
       ''HSBC Visa Signature Card'',
       ''HSBC Reward+ Mobile App'',
       ''Credit Cards Application'',
       ''Cash Credit Plan'',
       ''Cash Instalment Plan'',
       ''Mobile payment and Octopus add value services'',
       ''Red Hot Rewards'',
       ''RewardCash Certificate Scheme'',
       ''Rewards of Your Choice'',
       ''Miles and travel privileges'',
       ''Instant RewardCash redemption at merchants'',
       ''Using your credit card'',
       ''Credit card limit transfer'',
       ''Fees and charges'']),
    (''Loans'',
      [''Personal Instalment Loan'',
       ''Personal Tax Loan'',
       ''Balance Consolidation Program'',
       ''Personal Instalment Loan Redraw'',
       ''Revolving Credit Facility'',
       ''Electric Vehicle Personal Instalment Loan'',
       ''Fees and charges'']),
    (''Investments'',
      [''Open an Investment Account'',
       ''Stocks'',
       ''Unit Trusts'',
       ''Bonds / Certificates of Deposit (CDs)'',
       ''Structured products'',
       ''Foreign exchange'',
       ''Exchange rate calculator'',
       ''ESG investing'',
       ''HSBC Investment platform guide'',
       ''Gold trading'',
       ''Wealth Insights'',
       ''Wealth financing'',
       ''Fees and charges'',
       ''Top Trade Club'',
       ''Trade25'']),
    (''Insurance'',
      [''About HSBC Life'',
       ''HSBC Life Benefits+'',
       ''Life Insurance'',
       ''AccidentSurance'',
       ''Motor insurance'',
       ''TravelSurance'',
       ''Home and domestic helper insurance'',
       ''Medical and critical illness insurance'',
       ''Savings insurance and retirement plans'',
       ''Investment Performance'',
       ''Well+ (Well Plus)'',
       ''Making a claim and getting assistance'']),
    (''Help and support'',
      [''About our website'',
       ''Important notices'',
       ''Dealing with Bereavement'',
       ''Credit card support'',
       ''Contact Us'',
       ''Cyber security and fraud hub'',
       ''Frequently asked questions'',
       ''Forms and Documents Download'',
       ''Banking support for customers with health issues'',
       ''Money worries'',
       ''How a separation could affect your finances'',
       ''Accessibility'',
       ''Hyperlink policy'',
       ''Maintenance schedule'',
       ''Privacy and security'',
       ''Regulatory disclosures'',
       ''Terms of use'']),
    (''International services'',
      [''How to open an overseas account'',
       ''How to open a Hong Kong account'',
       ''International mortgages'',
       ''Investing in Hong Kong'',
       ''Living in Hong Kong'']),
    (''Mortgages'',
      [''Home Ownership Scheme'',
       ''Tenants Purchase Scheme'',
       ''Deposit-linked Mortgage'',
       ''Green Mortgage'',
       ''HighAdvance Mortgage'',
       ''Investor Mortgage'',
       ''HIBOR based Mortgage'',
       ''Property valuation tool'']),
    (''Payments and transfers'',
      [''Faster Payment System (FPS)'',
       ''Local transfers'',
       ''Global payments'',
       ''Pay abroad with FPS'',
       ''Bill Payments'',
       ''autoPay'',
       ''Daily payment and transfer limits'']),
    (''Community Banking'',
      [''Accessibility for people with disabilities'',
       ''Age-friendly Banking'',
       ''Banking with mental health struggles and financial stress'',
       ''Banking services for minority groups'',
       ''Our impact'']),
    (''MPF'',
      [''MPF Academy'',
       ''HSBC MPF Awards'',
       ''Forms and documents'',
       ''Glossary'',
       ''MPF management fees'',
       ''MPF news'',
       ''MPF for members'',
       ''MPF for employers'',
       ''MPF constituent fund information'',
       ''MPF Personal Accounts'',
       ''MPF for the self-employed'',
       ''Tax Deductible Voluntary Contributions account'',
       ''HSBC Retirement Monitor'',
       ''Designated branches with MPF services'',
       ''Cumulative Performance'',
       ''Retirement planner'',
       ''Understanding MPF'',
       ''Useful links'',
       ''Fees and charges''])]"

text \<open>
  A pair of the taxonomy: a top-level entry of the sitemap with one of its children or
  \<^verbatim>\<open>General\<close>, or the fallback pair.
\<close>

fun in_taxonomy :: "cell option \<times> cell option \<Rightarrow> bool" where
  "in_taxonomy (Some (Str c), Some (Str s)) =
     (case map_of sitemap c of
        Some subs \<Rightarrow> s \<in> set subs \<or> s = ''General''
      | None \<Rightarrow> c = ''other'' \<and> s = ''General'')"
| "in_taxonomy p = False"

definition categorize_question_async ::
  "capability \<Rightarrow> nat \<Rightarrow> string \<Rightarrow> string \<Rightarrow> (cell option \<times> cell option) \<times> call list" where
  "categorize_question_async cap k q a =
     (case cap k (CategorizeQuestion q a) of
        Failure \<Rightarrow> (Some (Str ''other''), Some (Str ''General''))
      | JObject result \<Rightarrow>
          (dict_get result ''category'' ''other'', dict_get result ''sub_category'' ''General''),
      [(k, CategorizeQuestion q a)])"

text \<open>
  \<^verbatim>\<open>process_single_category\<close>: the classifier raises nothing, so the task's \<^verbatim>\<open>except\<close> is
  never reached.
\<close>

definition process_single_category ::
  "capability \<Rightarrow> nat \<Rightarrow> nat \<Rightarrow> row \<Rightarrow> (nat \<times> cell option \<times> cell option) \<times> call list" where
  "process_single_category cap k idx r =
     (let ((cat, sub), sent) = categorize_question_async cap k (user_question r) (bot_answer r)
      in ((idx, cat, sub), sent))"

fun store_category :: "dataframe \<Rightarrow> nat \<times> cell option \<times> cell option \<Rightarrow> dataframe" where
  "store_category result_df (idx, Some cat, Some sub) =
     (if truthy (Some cat) \<and> truthy (Some sub)
      then at_update idx (\<lambda>r. r\<lparr>category := cat, sub_category := sub\<rparr>) result_df
      else result_df)"
| "store_category result_df (idx, cat, sub) = result_df"

definition add_categories_async :: "capability \<Rightarrow> dataframe \<Rightarrow> dataframe \<times> call list" where
  "add_categories_async cap df =
     (let df1 = (if ''category'' \<notin> set (columns df)
                 then add_column ''category'' (\<lambda>r. r\<lparr>category := Str []\<rparr>) df else df);
          result_df = (if ''sub_category'' \<notin> set (columns df1)
                 then add_column ''sub_category'' (\<lambda>r. r\<lparr>sub_category := Str []\<rparr>) df1 else df1);
          results =
            map (\<lambda>(k, idx, r). process_single_category cap k idx r) (enumerate 0 (body df))
      in (foldl store_category result_df (map fst results), concat (map snd results)))"

section \<open>Comment-failure classification\<close>

definition categorize_feedback_comment_async ::
  "capability \<Rightarrow> nat \<Rightarrow> cell \<Rightarrow> cell option \<times> call list" where
  "categorize_feedback_comment_async cap k comment =
     (case comment of
        NaN \<Rightarrow> (Some (Str []), [])
      | Str c \<Rightarrow>
          if c = [] \<or> strip c = [] then (Some (Str []), [])
          else
            (case cap k (CategorizeFeedbackComment c) of
               Failure \<Rightarrow> Some (Str [])
             | JObject result \<Rightarrow> dict_get result ''feedback_comment_category'' [],
             [(k, CategorizeFeedbackComment c)]))"

text \<open>
  \<^verbatim>\<open>process_single_comment_category\<close>: \<^verbatim>\<open>row['feedback_comment']\<close> is read inside the
  \<^verbatim>\<open>try\<close>, so on a frame without that column the task returns the empty text.
\<close>

definition process_single_comment_category ::
  "capability \<Rightarrow> string list \<Rightarrow> nat \<Rightarrow> nat \<Rightarrow> row \<Rightarrow> (nat \<times> cell option) \<times> call list" where
  "process_single_comment_category cap cols k idx r =
     (if feedback_rating r \<noteq> ''THUMBS_DOWN'' then ((idx, Some (Str [])), [])
      else if ''feedback_comment'' \<notin> set cols then ((idx, Some (Str [])), [])
      else
        (let (v, sent) = categorize_feedback_comment_async cap k (feedback_comment r)
         in ((idx, v), sent)))"

fun store_comment_category :: "dataframe \<Rightarrow> nat \<times> cell option \<Rightarrow> dataframe" where
  "store_comment_category result_df (idx, None) = result_df"
| "store_comment_category result_df (idx, Some v) =
     (if truthy (Some v)
      then at_update idx (\<lambda>r. r\<lparr>feedback_comment_category := v\<rparr>) result_df
      else result_df)"

definition add_feedback_comment_categories_async ::
  "capability \<Rightarrow> dataframe \<Rightarrow> dataframe \<times> call list" where
  "add_feedback_comment_categories_async cap df =
     (let result_df =
            (if ''feedback_comment_category'' \<notin> set (columns df)
             then add_column ''feedback_comment_category''
                    (\<lambda>r. r\<lparr>feedback_comment_category := Str []\<rparr>) df
             else df);
          results =
            map (\<lambda>(k, idx, r). process_single_comment_category cap (columns result_df) k idx r)
              (enumerate 0 (body result_df))
      in (foldl store_comment_category result_df (map fst results), concat (map snd results)))"

section \<open>Scenario tagging\<close>

text \<open>
  \<^verbatim>\<open>load_mapped_questions\<close>: \<^verbatim>\<open>set(mapped_df['question'].str.lower().str.strip())\<close>; a
  missing or unreadable reference list gives the empty set.
\<close>

fun normalize_cell :: "cell \<Rightarrow> cell" where
  "normalize_cell NaN = NaN"
| "normalize_cell (Str s) = Str (strip (lower s))"

definition load_mapped_questions :: "env \<Rightarrow> cell set" where
  "load_mapped_questions e =
     (case mapped_questions_file e of
        Absent \<Rightarrow> {}
      | Unreadable qs \<Rightarrow> {}
      | Readable qs \<Rightarrow> set (map normalize_cell qs))"

definition tag_row :: "cell set \<Rightarrow> dataframe \<Rightarrow> nat \<times> row \<Rightarrow> dataframe" where
  "tag_row mapped_questions result_df p =
     (case p of (idx, r) \<Rightarrow>
        (let q = strip (lower (user_question r)) in
         if Str q \<in> mapped_questions
         then at_update idx (\<lambda>r. r\<lparr>scenario := Str ''A''\<rparr>) result_df
         else at_update idx (\<lambda>r. r\<lparr>scenario := Str ''B''\<rparr>) result_df))"

text \<open>
  \<^verbatim>\<open>add_scenario_mapping\<close>. The summary it prints divides by \<^verbatim>\<open>len(result_df)\<close>, so with a
  reference list and no rows it raises.
\<close>

definition add_scenario_mapping :: "env \<Rightarrow> dataframe \<Rightarrow> exn + dataframe" where
  "add_scenario_mapping e df =
     (let mapped_questions = load_mapped_questions e in
      if mapped_questions = {} then
        Inr (if ''scenario'' \<notin> set (columns df)
             then add_column ''scenario'' (\<lambda>r. r\<lparr>scenario := Str ''B''\<rparr>) df
             else df)
      else
        let result_df =
              (if ''scenario'' \<notin> set (columns df)
               then add_column ''scenario'' (\<lambda>r. r\<lparr>scenario := Str []\<rparr>) df
               else df);
            tagged = foldl (tag_row mapped_questions) result_df (body result_df)
        in if body result_df = [] then Inl ZeroDivisionError else Inr tagged)"

section \<open>The comment step of the pipeline\<close>

text \<open>
  \<^verbatim>\<open>load_feedback_data\<close> catches \<^verbatim>\<open>FileNotFoundError\<close> only; any other read error leaves
  the step as an exception.
\<close>

definition load_feedback_data :: "disk \<Rightarrow> exn + dataframe" where
  "load_feedback_data d =
     (case d data_file of
        Absent \<Rightarrow> Inr DataFrame
      | Unreadable t \<Rightarrow> Inl ReadError
      | Readable t \<Rightarrow> Inr (read_csv t))"

text \<open>
  \<^verbatim>\<open>save_results\<close>: an exception of \<^verbatim>\<open>to_csv\<close> is printed and the file stays as it was.
  The spreadsheet copy written beside it is never read back and is left out.
\<close>

definition save_results :: "env \<Rightarrow> dataframe \<Rightarrow> string \<Rightarrow> disk \<Rightarrow> disk" where
  "save_results e df output_file d =
     (if to_csv_raises e output_file then d else d(output_file := Readable (to_csv df)))"

text \<open>\<^verbatim>\<open>process_comments_only\<close>: what it returns, the disk it leaves, the calls it sent.\<close>

definition process_comments_only :: "env \<Rightarrow> disk \<Rightarrow> (exn + dataframe) \<times> disk \<times> call list" where
  "process_comments_only e d =
     (case load_feedback_data d of
        Inl x \<Rightarrow> (Inl x, d, [])
      | Inr df \<Rightarrow>
          if empty_frame df then (Inr df, d, [])
          else
            let unprocessed_df = filter_unprocessed_records d df comments_output_file in
            if empty_frame unprocessed_df then
              (case d comments_output_file of
                 Absent \<Rightarrow> (Inr df, d, [])
               | Unreadable t \<Rightarrow> (Inl ReadError, d, [])
               | Readable t \<Rightarrow> (Inr (read_csv t), d, []))
            else
              let (new_results_df, sent) = add_comments_async (llm e) unprocessed_df;
                  final_df = merge_with_existing_results d new_results_df comments_output_file
              in (Inr final_df, save_results e final_df comments_output_file d, sent))"

section \<open>Predicates and sample data used in the properties\<close>

text \<open>Neither the request time nor the question holds the delimiter of the key.\<close>

definition delimiter_free :: "row \<Rightarrow> bool" where
  "delimiter_free r = (CHR ''|'' \<notin> set (request_time r) \<and> CHR ''|'' \<notin> set (user_question r))"

definition mk_row :: "string \<Rightarrow> string \<Rightarrow> string \<Rightarrow> string \<Rightarrow> cell \<Rightarrow> row" where
  "mk_row t q a rating comment =
     \<lparr>request_time = t, user_question = q, bot_answer = a, feedback_rating = rating,
      feedback_comment = comment, category = NaN, sub_category = NaN,
      feedback_comment_category = NaN, scenario = NaN\<rparr>"

text \<open>Two records that differ in question and answer and share their key.\<close>

definition pipe_row_a :: row where
  "pipe_row_a = mk_row ''2024-05-01 10:00:00'' ''fees|charges'' ''see the table'' ''THUMBS_UP'' NaN"

definition pipe_row_b :: row where
  "pipe_row_b = mk_row ''2024-05-01 10:00:00'' ''fees'' ''charges|see the table'' ''THUMBS_UP'' NaN"

text \<open>
  A base file of three records (thumbs down without comment, thumbs up, thumbs down with
  a comment), and a comment output that already holds the first one.
\<close>

definition ex_row1 :: row where
  "ex_row1 = mk_row ''2024-05-01 10:00:00'' ''What is FPS?'' ''Please call us.'' ''THUMBS_DOWN'' NaN"

definition ex_row2 :: row where
  "ex_row2 = mk_row ''2024-05-01 10:05:00'' ''How do I open an account?'' ''Use the app.'' ''THUMBS_UP'' NaN"

definition ex_row3 :: row where
  "ex_row3 = mk_row ''2024-05-01 10:09:00'' ''What is FPS'' ''A payment system.'' ''THUMBS_DOWN''
     (Str ''too short'')"

definition ex_base :: table where
  "ex_base = ([''feedback_comment''], [ex_row1, ex_row2, ex_row3])"

definition ex_prior :: table where
  "ex_prior = ([''feedback_comment''], [ex_row1\<lparr>feedback_comment := Str ''old''\<rparr>])"

definition ex_disk :: disk where
  "ex_disk = ((\<lambda>p. Absent)(data_file := Readable ex_base))(comments_output_file := Readable ex_prior)"

text \<open>
  Two batches for the first sample record: one that holds it once, and one that holds it
  twice with different comments (a base file may repeat a record, and each copy is
  enriched on its own).
\<close>

definition ex_batch :: dataframe where
  "ex_batch = \<lparr>columns = [''feedback_comment''],
               body = [(0, ex_row1\<lparr>feedback_comment := Str ''new''\<rparr>), (1, ex_row2)]\<rparr>"

definition ex_dup_batch :: dataframe where
  "ex_dup_batch = \<lparr>columns = [''feedback_comment''],
                   body = [(0, ex_row1\<lparr>feedback_comment := Str ''new''\<rparr>),
                           (1, ex_row1\<lparr>feedback_comment := Str ''newer''\<rparr>)]\<rparr>"

text \<open>
  What the result loops of the three dispatchers write into a row: the value when it is
  truthy, nothing otherwise. And what \<^verbatim>\<open>result_df[column] = ''\<close> leaves in a row of
  a frame that lacked the column.
\<close>

definition put_comment :: "cell option \<Rightarrow> row \<Rightarrow> row" where
  "put_comment v r =
     (case v of
        None \<Rightarrow> r
      | Some c \<Rightarrow> if truthy (Some c) then r\<lparr>feedback_comment := c\<rparr> else r)"

definition put_category :: "cell option \<times> cell option \<Rightarrow> row \<Rightarrow> row" where
  "put_category p r =
     (case p of
        (Some cat, Some sub) \<Rightarrow>
          if truthy (Some cat) \<and> truthy (Some sub) then r\<lparr>category := cat, sub_category := sub\<rparr> else r
      | _ \<Rightarrow> r)"

definition put_comment_category :: "cell option \<Rightarrow> row \<Rightarrow> row" where
  "put_comment_category v r =
     (case v of
        None \<Rightarrow> r
      | Some c \<Rightarrow> if truthy (Some c) then r\<lparr>feedback_comment_category := c\<rparr> else r)"

definition new_category_columns :: "string list \<Rightarrow> row \<Rightarrow> row" where
  "new_category_columns cols r =
     (let r1 = (if ''category'' \<notin> set cols then r\<lparr>category := Str []\<rparr> else r)
      in if ''sub_category'' \<notin> set cols then r1\<lparr>sub_category := Str []\<rparr> else r1)"

definition new_comment_category_column :: "string list \<Rightarrow> row \<Rightarrow> row" where
  "new_comment_category_column cols r =
     (if ''feedback_comment_category'' \<notin> set cols then r\<lparr>feedback_comment_category := Str []\<rparr> else r)"

fun put_comment_result :: "(exn + nat \<times> cell option) \<Rightarrow> row \<Rightarrow> row" where
  "put_comment_result (Inl e) r = r"
| "put_comment_result (Inr (idx, v)) r = put_comment v r"

definition new_comment_column :: "string list \<Rightarrow> row \<Rightarrow> row" where
  "new_comment_column cols r =
     (if ''feedback_comment'' \<notin> set cols then r\<lparr>feedback_comment := Str []\<rparr> else r)"

text \<open>The tag that \<^verbatim>\<open>add_scenario_mapping\<close> gives a question against a reference set.\<close>

definition scenario_tag :: "cell set \<Rightarrow> string \<Rightarrow> string" where
  "scenario_tag mapped_questions q =
     (if Str (strip (lower q)) \<in> mapped_questions then ''A'' else ''B'')"

text \<open>
  A batch of four records, and a capability that fails on the calls of the fourth task and
  answers the calls of the others with every field the dispatchers ask for; and one
  that fails always.
\<close>

definition ex_row4 :: row where
  "ex_row4 = mk_row ''2024-05-01 10:12:00'' ''Where is my card?'' ''Please call us.'' ''THUMBS_DOWN''
     (Str ''no link'')"

definition ex_four :: table where
  "ex_four = ([''feedback_comment''], [ex_row1, ex_row3, ex_row2, ex_row4])"

definition ex_answer :: "string \<Rightarrow> jvalue option" where
  "ex_answer =
     [''comment'' \<mapsto> JString ''Not helpful.'',
      ''category'' \<mapsto> JString ''Payments and transfers'',
      ''sub_category'' \<mapsto> JString ''Faster Payment System (FPS)'',
      ''feedback_comment_category'' \<mapsto> JString ''Incomplete/Generic Answer'']"

definition ex_cap :: capability where
  "ex_cap k req = (if k = 3 then Failure else JObject ex_answer)"

definition failing_cap :: capability where
  "failing_cap k req = Failure"

text \<open>
  The reference list with the one entry \<^verbatim>\<open>what is fps\<close>, and a frame of three questions.
\<close>

definition fps_env :: env where
  "fps_env = \<lparr>llm = failing_cap, to_csv_raises = (\<lambda>p. False),
              mapped_questions_file = Readable [Str ''what is fps'']\<rparr>"

definition fps_frame :: dataframe where
  "fps_frame =
     \<lparr>columns = [],
      body = [(0, mk_row ''t0'' ''What is FPS?'' ''a0'' ''THUMBS_UP'' NaN),
              (1, mk_row ''t1'' ''How do I open an account?'' ''a1'' ''THUMBS_UP'' NaN),
              (2, mk_row ''t2'' ''  What is FPS '' ''a2'' ''THUMBS_UP'' NaN)]\<rparr>"

text \<open>A reply that names a category outside the sitemap.\<close>

definition pets_answer :: "string \<Rightarrow> jvalue option" where
  "pets_answer = [''category'' \<mapsto> JString ''Pets'', ''sub_category'' \<mapsto> JString ''Dogs'']"

definition pets_cap :: capability where
  "pets_cap k req = JObject pets_answer"

text \<open>
  A run environment around the sample capability; a disk that holds the base file only;
  and a disk whose comment output exists, holds a record that the base file lacks, and
  cannot be read.
\<close>

definition ex_env :: env where
  "ex_env = \<lparr>llm = ex_cap, to_csv_raises = (\<lambda>p. False), mapped_questions_file = Absent\<rparr>"

definition fresh_disk :: disk where
  "fresh_disk = (\<lambda>p. Absent)(data_file := Readable ex_base)"

definition ex_stale :: table where
  "ex_stale = ([''feedback_comment''], [ex_row4])"

definition broken_disk :: disk where
  "broken_disk = ((\<lambda>p. Absent)(data_file := Readable ex_base))(comments_output_file := Unreadable ex_stale)"

section \<open>Properties\<close>

subsection \<open>Lists, labels and keys\<close>

lemma append_delim_eq:
  "c \<notin> set a \<Longrightarrow> c \<notin> set a' \<Longrightarrow> a @ c # r = a' @ c # r' \<Longrightarrow> a = a' \<and> r = r'"
proof (induction a arbitrary: a')
  case Nil
  then show ?case by (cases a') auto
next
  case (Cons x a)
  then show ?case by (cases a') auto
qed

lemma create_record_key_inj:
  assumes "delimiter_free r" and "delimiter_free r'"
    and "create_record_key r = create_record_key r'"
  shows "request_time r = request_time r' \<and> user_question r = user_question r'
         \<and> bot_answer r = bot_answer r'"
proof -
  from assms have t: "request_time r = request_time r'"
    and rest: "user_question r @ CHR ''|'' # bot_answer r = user_question r' @ CHR ''|'' # bot_answer r'"
    using append_delim_eq [of "CHR ''|''" "request_time r" "request_time r'"
        "user_question r @ CHR ''|'' # bot_answer r" "user_question r' @ CHR ''|'' # bot_answer r'"]
    by (simp_all add: create_record_key_def delimiter_free_def)
  from assms rest have "user_question r = user_question r' \<and> bot_answer r = bot_answer r'"
    using append_delim_eq [of "CHR ''|''" "user_question r" "user_question r'"
        "bot_answer r" "bot_answer r'"]
    by (simp add: delimiter_free_def)
  with t show ?thesis by simp
qed

lemma filter_label_unique:
  "distinct (map fst xs) \<Longrightarrow> y \<in> set xs \<Longrightarrow> filter (\<lambda>(idx, r). idx = fst y) xs = [y]"
proof (induction xs)
  case Nil
  then show ?case by simp
next
  case (Cons x xs)
  show ?case
  proof (cases "x = y")
    case True
    have "fst y \<notin> fst ` set xs"
      using Cons.prems True by simp
    then have "\<forall>p \<in> set xs. fst p \<noteq> fst y"
      by (metis imageI)
    then have "filter (\<lambda>(idx, r). idx = fst y) xs = []"
      by (simp add: filter_empty_conv case_prod_unfold)
    with True show ?thesis by (simp add: case_prod_unfold)
  next
    case False
    with Cons.prems have y: "y \<in> set xs" and "fst x \<noteq> fst y"
      by (auto simp: rev_image_eqI)
    with Cons show ?thesis by (simp add: case_prod_unfold)
  qed
qed

lemma loc_selected:
  assumes "distinct (map fst xs)" and "set ys \<subseteq> set xs"
  shows "concat (map (\<lambda>l. filter (\<lambda>(idx, r). idx = l) xs) (map fst ys)) = ys"
  using assms(2)
proof (induction ys)
  case Nil
  then show ?case by simp
next
  case (Cons y ys)
  then show ?case using filter_label_unique [OF assms(1), of y] by simp
qed

lemma loc_filter:
  "unique_index df \<Longrightarrow> loc df (map fst (filter P (body df))) = df\<lparr>body := filter P (body df)\<rparr>"
  using loc_selected [of "body df" "filter P (body df)"]
  by (simp add: loc_def unique_index_def)

lemma map_case_snd: "map (\<lambda>(idx, r). f r) zs = map f (map snd zs)"
  by (simp add: case_prod_unfold)

lemma keys_read_csv:
  "set (map (\<lambda>(idx, r). create_record_key r) (body (read_csv t))) = create_record_key ` set (snd t)"
proof -
  have "map (\<lambda>(idx, r). create_record_key r) (enumerate 0 (snd t)) = map create_record_key (snd t)"
    by (simp only: map_case_snd map_snd_enumerate)
  then show ?thesis by (simp add: read_csv_def)
qed

subsection \<open>Record identity\<close>

text \<open>
  C4, as the code has it. The key is a function of the three identity fields alone: records
  that agree on them have the same key. Records with the same key agree on the three fields
  when neither record's request time nor question contains the delimiter \<^verbatim>\<open>|\<close>; the key
  is built without escaping, so nothing more general holds (see the collision below).
\<close>

theorem create_record_key_identity:
  "(request_time r = request_time r' \<and> user_question r = user_question r' \<and> bot_answer r = bot_answer r'
      \<longrightarrow> create_record_key r = create_record_key r')
   \<and> (delimiter_free r \<and> delimiter_free r' \<and> create_record_key r = create_record_key r'
      \<longrightarrow> request_time r = request_time r' \<and> user_question r = user_question r'
          \<and> bot_answer r = bot_answer r')"
  using create_record_key_inj [of r r'] by (simp add: create_record_key_def)

text \<open>The theorem at two sample records that differ in the question, and at two that differ
  in the comment only.\<close>

theorem create_record_key_identity_witness:
  "delimiter_free ex_row1 \<and> delimiter_free ex_row3
   \<and> user_question ex_row1 \<noteq> user_question ex_row3
   \<and> create_record_key ex_row1 \<noteq> create_record_key ex_row3
   \<and> create_record_key (ex_row1\<lparr>feedback_comment := Str ''old''\<rparr>) = create_record_key ex_row1"
  using create_record_key_identity [of ex_row1 ex_row3]
    create_record_key_identity [of "ex_row1\<lparr>feedback_comment := Str ''old''\<rparr>" ex_row1]
  by (auto simp: delimiter_free_def ex_row1_def ex_row3_def mk_row_def)

text \<open>
  C4 as stated fails: two records that differ in question and answer, with one key.
\<close>

theorem create_record_key_collision:
  "user_question pipe_row_a \<noteq> user_question pipe_row_b
   \<and> bot_answer pipe_row_a \<noteq> bot_answer pipe_row_b
   \<and> create_record_key pipe_row_a = create_record_key pipe_row_b"
  by (simp add: pipe_row_a_def pipe_row_b_def mk_row_def create_record_key_def)

subsection \<open>Unprocessed-record filter\<close>

lemma get_processed_records_Readable:
  "d f = Readable t \<Longrightarrow> get_processed_records d f = create_record_key ` set (snd t)"
  by (simp add: get_processed_records_def keys_read_csv del: set_map)

lemma ex_rows_simps:
  "create_record_key ex_row1 = ''2024-05-01 10:00:00|What is FPS?|Please call us.''"
  "create_record_key ex_row2 = ''2024-05-01 10:05:00|How do I open an account?|Use the app.''"
  "create_record_key ex_row3 = ''2024-05-01 10:09:00|What is FPS|A payment system.''"
  by (simp_all add: ex_row1_def ex_row2_def ex_row3_def mk_row_def create_record_key_def)

text \<open>
  C2. On a frame whose index labels are distinct (every frame that \<^verbatim>\<open>read_csv\<close> builds, and
  every subset of one), \<^verbatim>\<open>filter_unprocessed_records\<close> against a readable prior output keeps
  exactly the rows whose key is not a key of a prior row, in their order and under their
  labels; against an absent or unreadable prior output it returns the frame itself.
\<close>

theorem filter_unprocessed_records_spec:
  assumes "unique_index df"
  shows "(d f = Readable t \<longrightarrow>
            filter_unprocessed_records d df f =
              df\<lparr>body := filter (\<lambda>(idx, r). create_record_key r \<notin> create_record_key ` set (snd t)) (body df)\<rparr>)
       \<and> (d f = Absent \<longrightarrow> filter_unprocessed_records d df f = df)
       \<and> (d f = Unreadable t \<longrightarrow> filter_unprocessed_records d df f = df)"
proof (intro conjI impI)
  assume r: "d f = Readable t"
  show "filter_unprocessed_records d df f =
      df\<lparr>body := filter (\<lambda>(idx, r). create_record_key r \<notin> create_record_key ` set (snd t)) (body df)\<rparr>"
  proof (cases "snd t = []")
    case True
    then show ?thesis
      using r by (simp add: filter_unprocessed_records_def get_processed_records_Readable)
  next
    case False
    then show ?thesis
      using r loc_filter [OF assms]
      by (simp add: filter_unprocessed_records_def get_processed_records_Readable)
  qed
next
  assume "d f = Absent"
  then show "filter_unprocessed_records d df f = df"
    by (simp add: filter_unprocessed_records_def get_processed_records_def)
next
  assume "d f = Unreadable t"
  then show "filter_unprocessed_records d df f = df"
    by (simp add: filter_unprocessed_records_def get_processed_records_def)
qed

text \<open>The theorem on the sample base file, whose first record is in the prior output.\<close>

theorem filter_unprocessed_records_spec_witness:
  "unique_index (read_csv ex_base)
   \<and> ex_disk comments_output_file = Readable ex_prior
   \<and> body (filter_unprocessed_records ex_disk (read_csv ex_base) comments_output_file)
       = [(1, ex_row2), (2, ex_row3)]
   \<and> ex_disk ''nowhere.csv'' = Absent
   \<and> filter_unprocessed_records ex_disk (read_csv ex_base) ''nowhere.csv'' = read_csv ex_base"
proof -
  have u: "unique_index (read_csv ex_base)"
    by (simp add: unique_index_def read_csv_def ex_base_def enumerate_eq_zip upt_rec)
  have p: "ex_disk comments_output_file = Readable ex_prior"
    by (simp add: ex_disk_def)
  have a: "ex_disk ''nowhere.csv'' = Absent"
    by (simp add: ex_disk_def data_file_def comments_output_file_def)
  have k: "create_record_key (ex_row1\<lparr>feedback_comment := Str ''old''\<rparr>) = create_record_key ex_row1"
    by (simp add: create_record_key_def)
  show ?thesis
    using filter_unprocessed_records_spec [OF u, of ex_disk comments_output_file ex_prior]
      filter_unprocessed_records_spec [OF u, of ex_disk "''nowhere.csv''" ex_prior] u p a
    by (simp add: read_csv_def ex_base_def ex_prior_def enumerate_eq_zip upt_rec k ex_rows_simps)
qed

subsection \<open>Incremental merge\<close>

lemma keep_last_map_snd:
  "map snd (keep_last (\<lambda>(idx, r). k r) zs) = keep_last k (map snd zs)"
  by (induction zs) (auto simp: case_prod_unfold image_image)

lemma filter_keep_last:
  "filter (\<lambda>x. k x = X) (keep_last k zs) =
     (if X \<in> k ` set zs then [last (filter (\<lambda>x. k x = X) zs)] else [])"
proof (induction zs)
  case Nil
  then show ?case by simp
next
  case (Cons z zs)
  show ?case
  proof (cases "k z \<in> k ` set zs")
    case True
    then have "k z = X \<Longrightarrow> filter (\<lambda>x. k x = X) zs \<noteq> []"
      by (auto simp: filter_empty_conv)
    with True Cons show ?thesis by auto
  next
    case False
    then have "\<forall>x \<in> set zs. k x \<noteq> k z"
      by (metis image_eqI)
    then have "k z = X \<Longrightarrow> filter (\<lambda>x. k x = X) zs = []"
      by (auto simp: filter_empty_conv)
    with False Cons show ?thesis by auto
  qed
qed

lemma rows_merge_Readable:
  assumes "d f = Readable t"
  shows "map snd (body (merge_with_existing_results d new_df f)) =
           keep_last create_record_key (snd t @ map snd (body new_df))"
  using assms
  by (simp add: merge_with_existing_results_def drop_duplicates_keep_last_def
      concat_ignore_index_def read_csv_def keep_last_map_snd Let_def)

lemma last_filter_append:
  "filter P ys \<noteq> [] \<Longrightarrow> last (filter P (xs @ ys)) = last (filter P ys)"
  by simp

lemma rows_with_key_merge:
  assumes "d f = Readable t" and "rows_with_key X new_df \<noteq> []"
  shows "rows_with_key X (merge_with_existing_results d new_df f) = [last (rows_with_key X new_df)]"
proof -
  let ?new = "map snd (body new_df)"
  from assms(2) have ne: "filter (\<lambda>r. create_record_key r = X) ?new \<noteq> []"
    by (simp add: rows_with_key_def)
  then have "X \<in> create_record_key ` set (snd t @ ?new)"
    by (auto simp: filter_empty_conv)
  then have "filter (\<lambda>r. create_record_key r = X) (keep_last create_record_key (snd t @ ?new))
      = [last (filter (\<lambda>r. create_record_key r = X) (snd t @ ?new))]"
    by (simp only: filter_keep_last if_True)
  also have "\<dots> = [last (filter (\<lambda>r. create_record_key r = X) ?new)]"
    using last_filter_append [OF ne] by simp
  finally show ?thesis
    using rows_merge_Readable [of d f t new_df] assms(1) by (simp add: rows_with_key_def)
qed

lemma ex_disk_simps:
  "ex_disk comments_output_file = Readable ex_prior"
  "ex_disk data_file = Readable ex_base"
  "ex_disk ''nowhere.csv'' = Absent"
  by (simp_all add: ex_disk_def data_file_def comments_output_file_def)

lemma key_feedback_comment_update:
  "create_record_key (r\<lparr>feedback_comment := c\<rparr>) = create_record_key r"
  by (simp add: create_record_key_def)

text \<open>
  C1, as the code has it. Against an absent prior output the merge returns the new batch
  unchanged. Against a readable prior output, for every key \<open>X\<close> that occurs in the new
  batch the merged frame holds exactly one row with key \<open>X\<close>, and it is the last row with
  key \<open>X\<close> of the new batch, whatever the prior output holds under \<open>X\<close>. So a prior
  annotation "old" gives way to "new" when the new batch holds \<open>X\<close> once, or holds "new"
  in its last row for \<open>X\<close>.
\<close>

theorem merge_last_write_wins:
  "(d f = Absent \<longrightarrow> merge_with_existing_results d new_df f = new_df)
   \<and> (d f = Readable t \<and> rows_with_key X new_df \<noteq> [] \<longrightarrow>
        rows_with_key X (merge_with_existing_results d new_df f) = [last (rows_with_key X new_df)])"
  using rows_with_key_merge [of d f t X new_df]
  by (simp add: merge_with_existing_results_def)

text \<open>The theorem on the sample prior output ("old") and a batch that holds the record once
  ("new").\<close>

theorem merge_last_write_wins_witness:
  "ex_disk comments_output_file = Readable ex_prior
   \<and> rows_with_key (create_record_key ex_row1) (read_csv ex_prior) = [ex_row1\<lparr>feedback_comment := Str ''old''\<rparr>]
   \<and> rows_with_key (create_record_key ex_row1) ex_batch = [ex_row1\<lparr>feedback_comment := Str ''new''\<rparr>]
   \<and> rows_with_key (create_record_key ex_row1)
        (merge_with_existing_results ex_disk ex_batch comments_output_file)
       = [ex_row1\<lparr>feedback_comment := Str ''new''\<rparr>]
   \<and> ex_disk ''nowhere.csv'' = Absent
   \<and> merge_with_existing_results ex_disk ex_batch ''nowhere.csv'' = ex_batch"
proof -
  have b: "rows_with_key (create_record_key ex_row1) ex_batch = [ex_row1\<lparr>feedback_comment := Str ''new''\<rparr>]"
    by (simp add: rows_with_key_def ex_batch_def key_feedback_comment_update ex_rows_simps)
  have p: "rows_with_key (create_record_key ex_row1) (read_csv ex_prior) = [ex_row1\<lparr>feedback_comment := Str ''old''\<rparr>]"
    by (simp add: rows_with_key_def ex_prior_def read_csv_def enumerate_eq_zip key_feedback_comment_update)
  show ?thesis
    using merge_last_write_wins [of ex_disk comments_output_file ex_batch ex_prior "create_record_key ex_row1"]
      merge_last_write_wins [of ex_disk "''nowhere.csv''" ex_batch ex_prior "create_record_key ex_row1"]
    by (simp add: b p ex_disk_simps)
qed

text \<open>
  C1 as stated fails on a batch that holds the record twice: the prior output has it with
  "old", the batch has it with "new" and then with "newer", and the one merged row carries
  "newer".
\<close>

theorem merge_keeps_last_of_batch:
  "rows_with_key (create_record_key ex_row1) (read_csv ex_prior) = [ex_row1\<lparr>feedback_comment := Str ''old''\<rparr>]
   \<and> ex_row1\<lparr>feedback_comment := Str ''new''\<rparr> \<in> set (rows_with_key (create_record_key ex_row1) ex_dup_batch)
   \<and> map feedback_comment (rows_with_key (create_record_key ex_row1)
        (merge_with_existing_results ex_disk ex_dup_batch comments_output_file)) = [Str ''newer'']"
  by (simp add: rows_with_key_def ex_prior_def read_csv_def enumerate_eq_zip upt_rec
      key_feedback_comment_update ex_dup_batch_def merge_with_existing_results_def ex_disk_simps
      concat_ignore_index_def drop_duplicates_keep_last_def)

subsection \<open>Result loops of the dispatchers\<close>

lemma at_update_body:
  "body (at_update i f df) = map (\<lambda>(j, r). if j = i then (j, f r) else (j, r)) (body df)"
  by (simp add: at_update_def)

lemma foldl_at_update:
  "distinct (map fst us) \<Longrightarrow>
   foldl (\<lambda>df (i, f). at_update i f df) df us =
     df\<lparr>body := map (\<lambda>(j, r). (j, case map_of us j of None \<Rightarrow> r | Some f \<Rightarrow> f r)) (body df)\<rparr>"
proof (induction us arbitrary: df)
  case Nil
  then show ?case by (simp add: case_prod_unfold)
next
  case (Cons u us)
  obtain i f where u: "u = (i, f)" by (cases u)
  with Cons.prems have fresh: "map_of us i = None" and d: "distinct (map fst us)"
    by (simp_all add: map_of_eq_None_iff)
  have "foldl (\<lambda>df (i, f). at_update i f df) df (u # us)
      = foldl (\<lambda>df (i, f). at_update i f df) (at_update i f df) us"
    by (simp add: u)
  also have "\<dots> = (at_update i f df)\<lparr>body :=
      map (\<lambda>(j, r). (j, case map_of us j of None \<Rightarrow> r | Some f \<Rightarrow> f r)) (body (at_update i f df))\<rparr>"
    by (rule Cons.IH [OF d])
  also have "\<dots> = df\<lparr>body :=
      map (\<lambda>(j, r). (j, case map_of (u # us) j of None \<Rightarrow> r | Some f \<Rightarrow> f r)) (body df)\<rparr>"
  proof -
    have "map (\<lambda>(j, r). (j, case map_of us j of None \<Rightarrow> r | Some f \<Rightarrow> f r))
            (map (\<lambda>(j, r). if j = i then (j, f r) else (j, r)) (body df))
        = map (\<lambda>(j, r). (j, case map_of (u # us) j of None \<Rightarrow> r | Some f \<Rightarrow> f r)) (body df)"
      using fresh by (auto simp: u)
    then show ?thesis by (simp add: at_update_def)
  qed
  finally show ?case .
qed

lemma store_pointwise:
  assumes "distinct (map fst xs)" and "length fs = length xs"
  shows "foldl (\<lambda>df (i, f). at_update i f df) df0 (zip (map fst xs) fs) =
           df0\<lparr>body := map (\<lambda>(j, r). (j, case map_of (zip (map fst xs) fs) j of None \<Rightarrow> r | Some f \<Rightarrow> f r)) (body df0)\<rparr>"
  using assms by (intro foldl_at_update) simp

lemma map_of_zip_labels:
  assumes "distinct (map fst xs)" and "length fs = length xs" and "k < length xs"
  shows "map_of (zip (map fst xs) fs) (fst (xs ! k)) = Some (fs ! k)"
  using map_of_zip_nth [of "map fst xs" fs k] assms by simp

lemma pointwise_body:
  assumes "distinct (map fst xs)" and "length fs = length xs"
  shows "map (\<lambda>(j, r). (j, case map_of (zip (map fst xs) fs) j of None \<Rightarrow> r | Some f \<Rightarrow> f r))
            (map (\<lambda>(j, r). (j, g r)) xs)
         = map (\<lambda>((j, r), f). (j, f (g r))) (zip xs fs)"
proof (rule nth_equalityI)
  show "length (map (\<lambda>(j, r). (j, case map_of (zip (map fst xs) fs) j of None \<Rightarrow> r | Some f \<Rightarrow> f r))
            (map (\<lambda>(j, r). (j, g r)) xs)) = length (map (\<lambda>((j, r), f). (j, f (g r))) (zip xs fs))"
    using assms by simp
next
  fix k
  assume "k < length (map (\<lambda>(j, r). (j, case map_of (zip (map fst xs) fs) j of None \<Rightarrow> r | Some f \<Rightarrow> f r))
            (map (\<lambda>(j, r). (j, g r)) xs))"
  then have k: "k < length xs" by simp
  then show "map (\<lambda>(j, r). (j, case map_of (zip (map fst xs) fs) j of None \<Rightarrow> r | Some f \<Rightarrow> f r))
            (map (\<lambda>(j, r). (j, g r)) xs) ! k = map (\<lambda>((j, r), f). (j, f (g r))) (zip xs fs) ! k"
    using map_of_zip_labels [OF assms k] assms(2) by (simp add: case_prod_unfold)
qed

text \<open>
  The shape shared by the result loops: a frame whose rows are those of \<open>xs\<close> under \<open>g\<close>,
  and one update per row of \<open>xs\<close>, stored under the row's label.
\<close>

lemma dispatch_pointwise:
  assumes "distinct (map fst xs)"
  shows "foldl (\<lambda>df (i, f). at_update i f df) \<lparr>columns = c, body = map (\<lambda>(j, r). (j, g r)) xs\<rparr>
            (map (\<lambda>(k, idx, r). (idx, u k idx r)) (enumerate n xs))
         = \<lparr>columns = c, body = map (\<lambda>(k, idx, r). (idx, u k idx r (g r))) (enumerate n xs)\<rparr>"
proof -
  let ?fs = "map (\<lambda>(k, idx, r). u k idx r) (enumerate n xs)"
  have z: "map (\<lambda>(k, idx, r). (idx, u k idx r)) (enumerate n xs) = zip (map fst xs) ?fs"
    by (rule nth_equalityI) (simp_all add: nth_enumerate_eq case_prod_unfold)
  have len: "length ?fs = length xs" by simp
  have "map (\<lambda>((j, r), f). (j, f (g r))) (zip xs ?fs)
      = map (\<lambda>(k, idx, r). (idx, u k idx r (g r))) (enumerate n xs)"
    by (rule nth_equalityI) (simp_all add: nth_enumerate_eq case_prod_unfold)
  then show ?thesis
    using store_pointwise [OF assms len, of "\<lparr>columns = c, body = map (\<lambda>(j, r). (j, g r)) xs\<rparr>"]
      pointwise_body [OF assms len, of g]
    by (simp only: z dataframe.simps)
qed

lemma at_update_id: "at_update i (\<lambda>r. r) df = df"
  by (simp add: at_update_def case_prod_unfold)

lemma put_comment_fun:
  "put_comment None = (\<lambda>r. r)"
  "\<not> truthy (Some c) \<Longrightarrow> put_comment (Some c) = (\<lambda>r. r)"
  "truthy (Some c) \<Longrightarrow> put_comment (Some c) = (\<lambda>r. r\<lparr>feedback_comment := c\<rparr>)"
  by (simp_all add: put_comment_def fun_eq_iff)

lemma put_comment_category_fun:
  "put_comment_category None = (\<lambda>r. r)"
  "\<not> truthy (Some c) \<Longrightarrow> put_comment_category (Some c) = (\<lambda>r. r)"
  "truthy (Some c) \<Longrightarrow> put_comment_category (Some c) = (\<lambda>r. r\<lparr>feedback_comment_category := c\<rparr>)"
  by (simp_all add: put_comment_category_def fun_eq_iff)

lemma put_category_fun:
  "put_category (None, s) = (\<lambda>r. r)"
  "put_category (c, None) = (\<lambda>r. r)"
  "\<not> truthy (Some cat) \<Longrightarrow> put_category (Some cat, Some sub) = (\<lambda>r. r)"
  "\<not> truthy (Some sub) \<Longrightarrow> put_category (Some cat, Some sub) = (\<lambda>r. r)"
  "truthy (Some cat) \<Longrightarrow> truthy (Some sub) \<Longrightarrow>
     put_category (Some cat, Some sub) = (\<lambda>r. r\<lparr>category := cat, sub_category := sub\<rparr>)"
  by (auto simp: put_category_def fun_eq_iff split: option.splits)

lemma store_category_eq:
  "store_category df (idx, p) = at_update idx (put_category p) df"
proof (cases p)
  case (Pair c s)
  then show ?thesis
    by (cases c; cases s; cases "truthy c"; cases "truthy s")
       (simp_all add: put_category_fun at_update_id)
qed

lemma store_comment_eq:
  "store_comment df (Inr (idx, v)) = at_update idx (put_comment v) df"
  by (cases v; cases "truthy v") (simp_all add: put_comment_fun at_update_id)

lemma store_comment_category_eq:
  "store_comment_category df (idx, v) = at_update idx (put_comment_category v) df"
  by (cases v; cases "truthy v") (simp_all add: put_comment_category_fun at_update_id)

lemma foldl_cong_step:
  "(\<And>a x. x \<in> set xs \<Longrightarrow> f a x = g a x) \<Longrightarrow> foldl f a xs = foldl g a xs"
  by (induction xs arbitrary: a) simp_all

text \<open>Category classification, row by row.\<close>

lemma add_categories_async_body:
  assumes "unique_index df"
  shows "body (fst (add_categories_async cap df)) =
     map (\<lambda>(k, idx, r).
            (idx, put_category (fst (categorize_question_async cap k (user_question r) (bot_answer r)))
                    (new_category_columns (columns df) r)))
         (enumerate 0 (body df))"
proof -
  let ?u = "\<lambda>k (idx::nat) r. put_category (fst (categorize_question_async cap k (user_question r) (bot_answer r)))"
  let ?g = "new_category_columns (columns df)"
  let ?df1 = "if ''category'' \<notin> set (columns df)
                 then add_column ''category'' (\<lambda>r. r\<lparr>category := Str []\<rparr>) df else df"
  let ?res = "if ''sub_category'' \<notin> set (columns ?df1)
                 then add_column ''sub_category'' (\<lambda>r. r\<lparr>sub_category := Str []\<rparr>) ?df1 else ?df1"
  have res: "?res = \<lparr>columns = columns ?res, body = map (\<lambda>(j, r). (j, ?g r)) (body df)\<rparr>"
    by (simp add: add_column_def new_category_columns_def case_prod_unfold)
  have "foldl store_category ?res
          (map fst (map (\<lambda>(k, idx, r). process_single_category cap k idx r) (enumerate 0 (body df))))
      = foldl (\<lambda>df (i, f). at_update i f df) ?res
          (map (\<lambda>(k, idx, r). (idx, ?u k idx r)) (enumerate 0 (body df)))"
    by (simp add: foldl_map case_prod_unfold process_single_category_def store_category_eq Let_def)
  also have "\<dots> = \<lparr>columns = columns ?res,
       body = map (\<lambda>(k, idx, r). (idx, ?u k idx r (?g r))) (enumerate 0 (body df))\<rparr>"
    using dispatch_pointwise [of "body df" "columns ?res" ?g ?u 0] assms res
    by (simp add: unique_index_def)
  finally show ?thesis
    by (simp add: add_categories_async_def Let_def)
qed

lemma map_enumerate_snd:
  "map (\<lambda>(k, idx, r). f idx r) (enumerate n xs) = map (\<lambda>(idx, r). f idx r) xs"
proof -
  have "map (\<lambda>(k, idx, r). f idx r) (enumerate n xs) = map (\<lambda>(idx, r). f idx r) (map snd (enumerate n xs))"
    by (simp add: case_prod_unfold del: map_snd_enumerate)
  then show ?thesis by simp
qed

lemma put_comment_result_Inr: "put_comment_result (Inr (idx, v)) = put_comment v"
  by (simp add: fun_eq_iff)

lemma put_comment_same: "put_comment (Some (feedback_comment r)) r = r"
  by (simp add: put_comment_def)

text \<open>Comment generation, row by row.\<close>

lemma store_comment_task:
  "store_comment X (fst (process_single_comment cap cols k idx r))
     = at_update idx (put_comment_result (fst (process_single_comment cap cols k idx r))) X"
proof (cases "''feedback_comment'' \<in> set cols")
  case True
  then have "\<exists>v. fst (process_single_comment cap cols k idx r) = Inr (idx, v)"
    by (cases "feedback_rating r = ''THUMBS_DOWN'' \<and> blank (feedback_comment r)")
       (simp_all add: process_single_comment_def case_prod_unfold Let_def)
  then obtain v where "fst (process_single_comment cap cols k idx r) = Inr (idx, v)" ..
  then show ?thesis by (simp add: store_comment_eq put_comment_result_Inr)
next
  case False
  then have "fst (process_single_comment cap cols k idx r) = Inl KeyError"
    by (simp add: process_single_comment_def)
  moreover have "put_comment_result (Inl KeyError) = (\<lambda>r. r)"
    by (simp add: fun_eq_iff)
  ultimately show ?thesis by (simp add: at_update_id)
qed

lemma add_comments_async_body:
  assumes "unique_index df"
  shows "body (fst (add_comments_async cap df)) =
     map (\<lambda>(k, idx, r).
            (idx, put_comment_result (fst (process_single_comment cap (columns df) k idx r))
                    (new_comment_column (columns df) r)))
         (enumerate 0 (body df))"
proof -
  let ?u = "\<lambda>k idx r. put_comment_result (fst (process_single_comment cap (columns df) k idx r))"
  let ?g = "new_comment_column (columns df)"
  define res where "res = (if ''feedback_comment'' \<notin> set (columns df)
              then add_column ''feedback_comment'' (\<lambda>r. r\<lparr>feedback_comment := Str []\<rparr>) df else df)"
  have bres: "body res = map (\<lambda>(j, r). (j, ?g r)) (body df)"
    by (simp add: res_def add_column_def new_comment_column_def case_prod_unfold)
  then have res: "res = \<lparr>columns = columns res, body = map (\<lambda>(j, r). (j, ?g r)) (body df)\<rparr>"
    by simp
  have unfold: "add_comments_async cap df =
      (if empty_frame (identify_thumbs_down_empty_feedback res) then (res, [])
       else (foldl store_comment res
               (map fst (map (\<lambda>(k, idx, r). process_single_comment cap (columns df) k idx r)
                  (enumerate 0 (body df)))),
             concat (map snd (map (\<lambda>(k, idx, r). process_single_comment cap (columns df) k idx r)
                  (enumerate 0 (body df))))))"
    by (simp add: add_comments_async_def Let_def res_def)
  show ?thesis
  proof (cases "empty_frame (identify_thumbs_down_empty_feedback res)")
    case True
    then have "filter (\<lambda>(idx, r). thumbs_down_empty r) (body res) = []"
      by (simp add: empty_frame_def identify_thumbs_down_empty_feedback_def)
    then have none: "\<forall>p \<in> set (body df). \<not> thumbs_down_empty (?g (snd p))"
      by (simp add: bres filter_empty_conv case_prod_unfold)
    have "\<And>k idx r. k < length (body df) \<Longrightarrow> body df ! k = (idx, r) \<Longrightarrow> ?u k idx r (?g r) = ?g r"
    proof -
      fix k idx r
      assume "k < length (body df)" and "body df ! k = (idx, r)"
      then have "(idx, r) \<in> set (body df)" by (metis nth_mem)
      with none have n: "\<not> thumbs_down_empty (?g r)" by auto
      show "?u k idx r (?g r) = ?g r"
      proof (cases "''feedback_comment'' \<in> set (columns df)")
        case True
        with n show ?thesis
          by (auto simp: process_single_comment_def new_comment_column_def thumbs_down_empty_def
              put_comment_same)
      next
        case False
        then show ?thesis by (simp add: process_single_comment_def)
      qed
    qed
    then have "map (\<lambda>(k, idx, r). (idx, ?u k idx r (?g r))) (enumerate 0 (body df))
             = map (\<lambda>(k, idx, r). (idx, ?g r)) (enumerate 0 (body df))"
      by (auto simp: in_set_enumerate_eq)
    also have "\<dots> = map (\<lambda>(idx, r). (idx, ?g r)) (body df)"
      by (rule map_enumerate_snd)
    finally show ?thesis
      using True by (simp add: unfold bres)
  next
    case False
    have "foldl store_comment res
          (map fst (map (\<lambda>(k, idx, r). process_single_comment cap (columns df) k idx r)
             (enumerate 0 (body df))))
      = foldl (\<lambda>df (i, f). at_update i f df) res
          (map (\<lambda>(k, idx, r). (idx, ?u k idx r)) (enumerate 0 (body df)))"
      by (simp add: foldl_map case_prod_unfold store_comment_task)
    also have "\<dots> = \<lparr>columns = columns res,
       body = map (\<lambda>(k, idx, r). (idx, ?u k idx r (?g r))) (enumerate 0 (body df))\<rparr>"
      using dispatch_pointwise [of "body df" "columns res" ?g ?u 0] assms res
      by (simp add: unique_index_def)
    finally show ?thesis
      using False by (simp add: unfold)
  qed
qed

lemma enumerate_map:
  "enumerate n (map h xs) = map (\<lambda>(k, x). (k, h x)) (enumerate n xs)"
  by (induction xs arbitrary: n) simp_all

text \<open>Comment-failure classification, row by row.\<close>

lemma add_feedback_comment_categories_async_body:
  assumes "unique_index df"
  shows "body (fst (add_feedback_comment_categories_async cap df)) =
     map (\<lambda>(k, idx, r).
            (idx, put_comment_category
                    (snd (fst (process_single_comment_category cap
                       (columns df @ (if ''feedback_comment_category'' \<notin> set (columns df)
                                      then [''feedback_comment_category''] else []))
                       k idx (new_comment_category_column (columns df) r))))
                    (new_comment_category_column (columns df) r)))
         (enumerate 0 (body df))"
proof -
  let ?g = "new_comment_category_column (columns df)"
  let ?cols = "columns df @ (if ''feedback_comment_category'' \<notin> set (columns df)
                                      then [''feedback_comment_category''] else [])"
  let ?u = "\<lambda>k idx r. put_comment_category (snd (fst (process_single_comment_category cap ?cols k idx (?g r))))"
  define res where "res = (if ''feedback_comment_category'' \<notin> set (columns df)
             then add_column ''feedback_comment_category''
                    (\<lambda>r. r\<lparr>feedback_comment_category := Str []\<rparr>) df
             else df)"
  have bres: "body res = map (\<lambda>(j, r). (j, ?g r)) (body df)"
    by (simp add: res_def add_column_def new_comment_category_column_def case_prod_unfold)
  have cres: "columns res = ?cols"
    by (simp add: res_def add_column_def)
  have res: "res = \<lparr>columns = ?cols, body = map (\<lambda>(j, r). (j, ?g r)) (body df)\<rparr>"
    using bres cres by simp
  have unfold: "fst (add_feedback_comment_categories_async cap df) =
      foldl store_comment_category res
        (map fst (map (\<lambda>(k, idx, r). process_single_comment_category cap ?cols k idx r)
           (enumerate 0 (map (\<lambda>(j, r). (j, ?g r)) (body df)))))"
    by (simp add: add_feedback_comment_categories_async_def Let_def res_def [symmetric] cres bres)
  have lbl: "\<And>k idx r. fst (fst (process_single_comment_category cap ?cols k idx r)) = idx"
    by (simp add: process_single_comment_category_def case_prod_unfold Let_def)
  have step: "\<And>X k idx r. store_comment_category X (fst (process_single_comment_category cap ?cols k idx r))
      = at_update idx (put_comment_category (snd (fst (process_single_comment_category cap ?cols k idx r)))) X"
    using store_comment_category_eq lbl by (metis prod.collapse)
  have "foldl store_comment_category res
        (map fst (map (\<lambda>(k, idx, r). process_single_comment_category cap ?cols k idx r)
           (enumerate 0 (map (\<lambda>(j, r). (j, ?g r)) (body df)))))
      = foldl (\<lambda>df (i, f). at_update i f df) res
          (map (\<lambda>(k, idx, r). (idx, ?u k idx r)) (enumerate 0 (body df)))"
    by (simp add: foldl_map case_prod_unfold enumerate_map step)
  also have "\<dots> = \<lparr>columns = ?cols,
       body = map (\<lambda>(k, idx, r). (idx, ?u k idx r (?g r))) (enumerate 0 (body df))\<rparr>"
    using dispatch_pointwise [of "body df" ?cols ?g ?u 0] assms res
    by (simp add: unique_index_def)
  finally show ?thesis
    by (simp add: unfold)
qed

text \<open>The calls that the dispatchers send.\<close>

lemma add_categories_async_calls:
  "snd (add_categories_async cap df) =
     map (\<lambda>(k, idx, r). (k, CategorizeQuestion (user_question r) (bot_answer r)))
       (enumerate 0 (body df))"
  by (simp add: add_categories_async_def Let_def process_single_category_def
      categorize_question_async_def case_prod_unfold comp_def)

lemma add_comments_async_calls:
  assumes "(k, req) \<in> set (snd (add_comments_async cap df))"
  shows "k < length (body df) \<and> ''feedback_comment'' \<in> set (columns df)
         \<and> feedback_rating (snd (body df ! k)) = ''THUMBS_DOWN''
         \<and> blank (feedback_comment (snd (body df ! k)))"
proof -
  from assms have "(k, req) \<in> set (concat (map snd
      (map (\<lambda>(k, idx, r). process_single_comment cap (columns df) k idx r) (enumerate 0 (body df)))))"
    by (simp add: add_comments_async_def Let_def split: if_splits)
  then obtain k' idx r where mem: "(k', idx, r) \<in> set (enumerate 0 (body df))"
    and call: "(k, req) \<in> set (snd (process_single_comment cap (columns df) k' idx r))"
    by auto
  from call have c: "''feedback_comment'' \<in> set (columns df)"
    and t: "feedback_rating r = ''THUMBS_DOWN'' \<and> blank (feedback_comment r)" and "k = k'"
    by (auto simp: process_single_comment_def generate_bot_comment_async_def split: if_splits)
  with mem show ?thesis
    by (auto simp: in_set_enumerate_eq)
qed

lemma add_feedback_comment_categories_async_calls:
  assumes "(k, req) \<in> set (snd (add_feedback_comment_categories_async cap df))"
  shows "k < length (body df) \<and> ''feedback_comment'' \<in> set (columns df)
         \<and> feedback_rating (snd (body df ! k)) = ''THUMBS_DOWN''
         \<and> \<not> blank (feedback_comment (snd (body df ! k)))"
proof -
  let ?g = "new_comment_category_column (columns df)"
  let ?cols = "columns df @ (if ''feedback_comment_category'' \<notin> set (columns df)
                                      then [''feedback_comment_category''] else [])"
  have "snd (add_feedback_comment_categories_async cap df) =
      concat (map snd (map (\<lambda>(k, idx, r). process_single_comment_category cap ?cols k idx r)
           (enumerate 0 (map (\<lambda>(j, r). (j, ?g r)) (body df)))))"
    by (simp add: add_feedback_comment_categories_async_def Let_def add_column_def
        new_comment_category_column_def case_prod_unfold)
  with assms obtain k' idx r where mem: "(k', idx, r) \<in> set (enumerate 0 (body df))"
    and call: "(k, req) \<in> set (snd (process_single_comment_category cap ?cols k' idx (?g r)))"
    by (auto simp: enumerate_map)
  from call have c: "''feedback_comment'' \<in> set (columns df)"
    and t: "feedback_rating r = ''THUMBS_DOWN'' \<and> \<not> blank (feedback_comment r)" and "k = k'"
    by (auto simp: process_single_comment_category_def categorize_feedback_comment_async_def
        new_comment_category_column_def split: if_splits cell.splits)
  with mem show ?thesis
    by (auto simp: in_set_enumerate_eq)
qed

subsection \<open>Sample data\<close>

lemma unique_index_read_csv: "unique_index (read_csv t)"
  by (simp add: unique_index_def read_csv_def)

lemma body_read_csv_ex_base: "body (read_csv ex_base) = [(0, ex_row1), (1, ex_row2), (2, ex_row3)]"
  by (simp add: read_csv_def ex_base_def)

lemma columns_read_csv_ex_base: "columns (read_csv ex_base) = [''feedback_comment'']"
  by (simp add: read_csv_def ex_base_def)

lemma ex_row_fields:
  "feedback_rating ex_row1 = ''THUMBS_DOWN''" "feedback_comment ex_row1 = NaN"
  "feedback_rating ex_row2 = ''THUMBS_UP''" "feedback_comment ex_row2 = NaN"
  "feedback_rating ex_row3 = ''THUMBS_DOWN''" "feedback_comment ex_row3 = Str ''too short''"
  by (simp_all add: ex_row1_def ex_row2_def ex_row3_def mk_row_def)

subsection \<open>Predicate gating\<close>

text \<open>
  C6. In a frame with distinct index labels, the task of a record rated \<^verbatim>\<open>THUMBS_UP\<close> sends
  no call, neither in comment generation nor in comment-failure classification. Comment
  generation leaves the record as it is (in a frame without a comment column the column
  is created empty), and comment-failure classification leaves it as it is too: its
  \<^verbatim>\<open>feedback_comment_category\<close> keeps the value it had, the empty text in a frame where this
  step creates the column.
\<close>

theorem thumbs_up_not_sent:
  assumes "unique_index df" and "k < length (body df)" and "body df ! k = (idx, r)"
    and "feedback_rating r = ''THUMBS_UP''"
  shows "(\<forall>req. (k, req) \<notin> set (snd (add_comments_async cap df)))
       \<and> (\<forall>req. (k, req) \<notin> set (snd (add_feedback_comment_categories_async cap df)))
       \<and> body (fst (add_comments_async cap df)) ! k =
           (idx, if ''feedback_comment'' \<in> set (columns df) then r else r\<lparr>feedback_comment := Str []\<rparr>)
       \<and> body (fst (add_feedback_comment_categories_async cap df)) ! k =
           (idx, if ''feedback_comment_category'' \<in> set (columns df) then r
                 else r\<lparr>feedback_comment_category := Str []\<rparr>)"
proof (intro conjI allI)
  fix req
  show "(k, req) \<notin> set (snd (add_comments_async cap df))"
    using add_comments_async_calls [of k req cap df] assms(3,4) by auto
  show "(k, req) \<notin> set (snd (add_feedback_comment_categories_async cap df))"
    using add_feedback_comment_categories_async_calls [of k req cap df] assms(3,4) by auto
next
  show "body (fst (add_comments_async cap df)) ! k =
           (idx, if ''feedback_comment'' \<in> set (columns df) then r else r\<lparr>feedback_comment := Str []\<rparr>)"
    using assms
    by (simp add: add_comments_async_body nth_enumerate_eq process_single_comment_def
        new_comment_column_def put_comment_same)
next
  show "body (fst (add_feedback_comment_categories_async cap df)) ! k =
           (idx, if ''feedback_comment_category'' \<in> set (columns df) then r
                 else r\<lparr>feedback_comment_category := Str []\<rparr>)"
    using assms
    by (simp add: add_feedback_comment_categories_async_body nth_enumerate_eq
        process_single_comment_category_def new_comment_category_column_def
        put_comment_category_def)
qed

text \<open>The theorem at the second record of the sample base file.\<close>

theorem thumbs_up_not_sent_witness:
  "unique_index (read_csv ex_base) \<and> body (read_csv ex_base) ! 1 = (1, ex_row2)
   \<and> feedback_rating ex_row2 = ''THUMBS_UP''
   \<and> (\<forall>req. (1, req) \<notin> set (snd (add_comments_async ex_cap (read_csv ex_base))))
   \<and> (\<forall>req. (1, req) \<notin> set (snd (add_feedback_comment_categories_async ex_cap (read_csv ex_base))))
   \<and> body (fst (add_comments_async ex_cap (read_csv ex_base))) ! 1 = (1, ex_row2)
   \<and> body (fst (add_feedback_comment_categories_async ex_cap (read_csv ex_base))) ! 1 =
       (1, ex_row2\<lparr>feedback_comment_category := Str []\<rparr>)"
  using thumbs_up_not_sent [OF unique_index_read_csv, of 1 ex_base 1 ex_row2 ex_cap]
  by (simp add: body_read_csv_ex_base columns_read_csv_ex_base ex_row_fields unique_index_read_csv)

subsection \<open>Partial-failure isolation\<close>

lemma strip_Nil: "strip [] = []"
  by (simp add: strip_def)

lemma map_enumerate_cong:
  assumes "\<And>k idx r. k < length xs \<Longrightarrow> xs ! k = (idx, r) \<Longrightarrow> f k idx r = g k idx r"
  shows "map (\<lambda>(k, idx, r). f k idx r) (enumerate 0 xs) = map (\<lambda>(k, idx, r). g k idx r) (enumerate 0 xs)"
  using assms by (auto simp: in_set_enumerate_eq)

lemma body_read_csv_ex_four:
  "body (read_csv ex_four) = [(0, ex_row1), (1, ex_row3), (2, ex_row2), (3, ex_row4)]"
  by (simp add: read_csv_def ex_four_def)

lemma columns_read_csv_ex_four: "columns (read_csv ex_four) = [''feedback_comment'']"
  by (simp add: read_csv_def ex_four_def)

lemma ex_row4_fields:
  "feedback_rating ex_row4 = ''THUMBS_DOWN''" "feedback_comment ex_row4 = Str ''no link''"
  by (simp_all add: ex_row4_def mk_row_def)

lemma strip_samples: "strip ''too short'' = ''too short''" "strip ''no link'' = ''no link''"
  by (simp_all add: strip_def is_space_def)

lemma ex_cap_answers:
  "k \<noteq> 3 \<Longrightarrow> \<exists>answer. ex_cap k req = JObject answer
      \<and> answer ''category'' = Some (JString ''Payments and transfers'')
      \<and> answer ''sub_category'' = Some (JString ''Faster Payment System (FPS)'')
      \<and> answer ''comment'' = Some (JString ''Not helpful.'')
      \<and> answer ''feedback_comment_category'' = Some (JString ''Incomplete/Generic Answer'')"
  by (simp add: ex_cap_def ex_answer_def)

text \<open>
  C5. Take a batch with distinct index labels, in which every call of task \<open>j\<close> fails and
  every call of any other task \<open>k\<close> is answered by an object that names the non-empty texts
  \<open>cat k\<close>, \<open>sub k\<close>, \<open>com k\<close> and \<open>fcc k\<close>. Each dispatcher returns every record of the
  batch, in order and under its label. Category classification gives record \<open>j\<close> the pair
  \<^verbatim>\<open>other\<close>/\<^verbatim>\<open>General\<close> and every other record \<open>k\<close> its own pair. Comment generation
  (the frame has a comment column) leaves record \<open>j\<close> as it was, so blank where a call was
  due, and gives every other record that is thumbs down with a blank comment its comment
  \<open>com k\<close>. Comment-failure classification (the step creates the column) gives every other
  record that is thumbs down with a comment its label \<open>fcc k\<close>, and the empty text to
  record \<open>j\<close> and to the records it sends no call for. No record's result depends on the
  failure of another.
\<close>

theorem partial_failure_isolation:
  assumes u: "unique_index df" and j: "j < length (body df)"
    and fail: "\<forall>req. cap j req = Failure"
    and ok: "\<forall>k < length (body df). k \<noteq> j \<longrightarrow>
               (\<forall>req. \<exists>answer. cap k req = JObject answer
                  \<and> answer ''category'' = Some (JString (cat k))
                  \<and> answer ''sub_category'' = Some (JString (sub k))
                  \<and> answer ''comment'' = Some (JString (com k))
                  \<and> answer ''feedback_comment_category'' = Some (JString (fcc k)))"
    and ne: "\<forall>k < length (body df). k \<noteq> j \<longrightarrow> cat k \<noteq> [] \<and> sub k \<noteq> [] \<and> com k \<noteq> [] \<and> fcc k \<noteq> []"
    and c1: "''feedback_comment'' \<in> set (columns df)"
    and c2: "''feedback_comment_category'' \<notin> set (columns df)"
  shows "body (fst (add_categories_async cap df)) =
           map (\<lambda>(k, idx, r).
                  (idx, r\<lparr>category := Str (if k = j then ''other'' else cat k),
                           sub_category := Str (if k = j then ''General'' else sub k)\<rparr>))
             (enumerate 0 (body df))
       \<and> body (fst (add_comments_async cap df)) =
           map (\<lambda>(k, idx, r).
                  (idx, if feedback_rating r = ''THUMBS_DOWN'' \<and> blank (feedback_comment r) \<and> k \<noteq> j
                        then r\<lparr>feedback_comment := Str (com k)\<rparr> else r))
             (enumerate 0 (body df))
       \<and> body (fst (add_feedback_comment_categories_async cap df)) =
           map (\<lambda>(k, idx, r).
                  (idx, r\<lparr>feedback_comment_category :=
                             Str (if feedback_rating r = ''THUMBS_DOWN'' \<and> \<not> blank (feedback_comment r) \<and> k \<noteq> j
                                  then fcc k else [])\<rparr>))
             (enumerate 0 (body df))"
proof (intro conjI)
  show "body (fst (add_categories_async cap df)) =
           map (\<lambda>(k, idx, r).
                  (idx, r\<lparr>category := Str (if k = j then ''other'' else cat k),
                           sub_category := Str (if k = j then ''General'' else sub k)\<rparr>))
             (enumerate 0 (body df))"
    unfolding add_categories_async_body [OF u]
  proof (rule map_enumerate_cong)
    fix k idx r
    assume k: "k < length (body df)"
    show "(idx, put_category (fst (categorize_question_async cap k (user_question r) (bot_answer r)))
                  (new_category_columns (columns df) r))
        = (idx, r\<lparr>category := Str (if k = j then ''other'' else cat k),
                   sub_category := Str (if k = j then ''General'' else sub k)\<rparr>)"
    proof (cases "k = j")
      case True
      then show ?thesis
        using fail
        by (simp add: categorize_question_async_def put_category_def new_category_columns_def)
    next
      case False
      with ok k obtain answer where "cap k (CategorizeQuestion (user_question r) (bot_answer r)) = JObject answer"
        and "answer ''category'' = Some (JString (cat k))"
        and "answer ''sub_category'' = Some (JString (sub k))"
        by blast
      moreover from ne k False have "cat k \<noteq> []" "sub k \<noteq> []" by auto
      ultimately show ?thesis
        using False
        by (simp add: categorize_question_async_def put_category_def new_category_columns_def
            dict_get_def)
    qed
  qed
next
  show "body (fst (add_comments_async cap df)) =
           map (\<lambda>(k, idx, r).
                  (idx, if feedback_rating r = ''THUMBS_DOWN'' \<and> blank (feedback_comment r) \<and> k \<noteq> j
                        then r\<lparr>feedback_comment := Str (com k)\<rparr> else r))
             (enumerate 0 (body df))"
    unfolding add_comments_async_body [OF u]
  proof (rule map_enumerate_cong)
    fix k idx r
    assume k: "k < length (body df)"
    let ?lhs = "(idx, put_comment_result (fst (process_single_comment cap (columns df) k idx r))
                  (new_comment_column (columns df) r))"
    let ?rhs = "(idx, if feedback_rating r = ''THUMBS_DOWN'' \<and> blank (feedback_comment r) \<and> k \<noteq> j
                        then r\<lparr>feedback_comment := Str (com k)\<rparr> else r)"
    show "?lhs = ?rhs"
    proof (cases "feedback_rating r = ''THUMBS_DOWN'' \<and> blank (feedback_comment r)")
      case False
      then show ?thesis
        using c1 by (auto simp: process_single_comment_def new_comment_column_def put_comment_same)
    next
      case elig: True
      show ?thesis
      proof (cases "k = j")
        case True
        then show ?thesis
          using fail c1 elig
          by (simp add: process_single_comment_def new_comment_column_def
              generate_bot_comment_async_def put_comment_def)
      next
        case False
        with ok k obtain answer where "cap k (GenerateBotComment (user_question r) (bot_answer r)) = JObject answer"
          and "answer ''comment'' = Some (JString (com k))"
          by blast
        moreover from ne k False have "com k \<noteq> []" by auto
        ultimately show ?thesis
          using False c1 elig
          by (simp add: process_single_comment_def new_comment_column_def
              generate_bot_comment_async_def put_comment_def dict_get_def)
      qed
    qed
  qed
next
  show "body (fst (add_feedback_comment_categories_async cap df)) =
           map (\<lambda>(k, idx, r).
                  (idx, r\<lparr>feedback_comment_category :=
                             Str (if feedback_rating r = ''THUMBS_DOWN'' \<and> \<not> blank (feedback_comment r) \<and> k \<noteq> j
                                  then fcc k else [])\<rparr>))
             (enumerate 0 (body df))"
    unfolding add_feedback_comment_categories_async_body [OF u]
  proof (rule map_enumerate_cong)
    fix k idx r
    assume k: "k < length (body df)"
    let ?cols = "columns df @ (if ''feedback_comment_category'' \<notin> set (columns df)
                                      then [''feedback_comment_category''] else [])"
    let ?r = "new_comment_category_column (columns df) r"
    have r': "?r = r\<lparr>feedback_comment_category := Str []\<rparr>"
      using c2 by (simp add: new_comment_category_column_def)
    show "(idx, put_comment_category (snd (fst (process_single_comment_category cap ?cols k idx ?r))) ?r)
        = (idx, r\<lparr>feedback_comment_category :=
                             Str (if feedback_rating r = ''THUMBS_DOWN'' \<and> \<not> blank (feedback_comment r) \<and> k \<noteq> j
                                  then fcc k else [])\<rparr>)"
    proof (cases "feedback_rating r = ''THUMBS_DOWN'' \<and> \<not> blank (feedback_comment r)")
      case False
      then show ?thesis
        using c1 c2
        by (cases "feedback_comment r")
           (auto simp: r' process_single_comment_category_def categorize_feedback_comment_async_def
              put_comment_category_def)
    next
      case elig: True
      then obtain c where c0: "feedback_comment r = Str c" "strip c \<noteq> []"
        by (cases "feedback_comment r") auto
      then have "c \<noteq> []" using strip_Nil by auto
      with c0 have c: "feedback_comment r = Str c" "strip c \<noteq> []" "c \<noteq> []" by simp_all
      show ?thesis
      proof (cases "k = j")
        case True
        then show ?thesis
          using fail c1 c2 elig c
          by (simp add: r' process_single_comment_category_def categorize_feedback_comment_async_def
              put_comment_category_def)
      next
        case False
        with ok k obtain answer where "cap k (CategorizeFeedbackComment c) = JObject answer"
          and "answer ''feedback_comment_category'' = Some (JString (fcc k))"
          by blast
        moreover from ne k False have "fcc k \<noteq> []" by auto
        ultimately show ?thesis
          using False c1 c2 elig c
          by (simp add: r' process_single_comment_category_def categorize_feedback_comment_async_def
              put_comment_category_def dict_get_def)
      qed
    qed
  qed
qed

text \<open>The theorem on the batch of four sample records, the calls of the last one failing.\<close>

theorem partial_failure_isolation_witness:
  "unique_index (read_csv ex_four) \<and> 3 < length (body (read_csv ex_four))
   \<and> (\<forall>req. ex_cap 3 req = Failure)
   \<and> map snd (body (fst (add_categories_async ex_cap (read_csv ex_four)))) =
       [ex_row1\<lparr>category := Str ''Payments and transfers'', sub_category := Str ''Faster Payment System (FPS)''\<rparr>,
        ex_row3\<lparr>category := Str ''Payments and transfers'', sub_category := Str ''Faster Payment System (FPS)''\<rparr>,
        ex_row2\<lparr>category := Str ''Payments and transfers'', sub_category := Str ''Faster Payment System (FPS)''\<rparr>,
        ex_row4\<lparr>category := Str ''other'', sub_category := Str ''General''\<rparr>]
   \<and> map snd (body (fst (add_comments_async ex_cap (read_csv ex_four)))) =
       [ex_row1\<lparr>feedback_comment := Str ''Not helpful.''\<rparr>, ex_row3, ex_row2, ex_row4]
   \<and> map snd (body (fst (add_feedback_comment_categories_async ex_cap (read_csv ex_four)))) =
       [ex_row1\<lparr>feedback_comment_category := Str []\<rparr>,
        ex_row3\<lparr>feedback_comment_category := Str ''Incomplete/Generic Answer''\<rparr>,
        ex_row2\<lparr>feedback_comment_category := Str []\<rparr>,
        ex_row4\<lparr>feedback_comment_category := Str []\<rparr>]"
proof -
  have fail: "\<forall>req. ex_cap 3 req = Failure"
    by (simp add: ex_cap_def)
  have ok: "\<forall>k < length (body (read_csv ex_four)). k \<noteq> 3 \<longrightarrow>
               (\<forall>req. \<exists>answer. ex_cap k req = JObject answer
                  \<and> answer ''category'' = Some (JString ''Payments and transfers'')
                  \<and> answer ''sub_category'' = Some (JString ''Faster Payment System (FPS)'')
                  \<and> answer ''comment'' = Some (JString ''Not helpful.'')
                  \<and> answer ''feedback_comment_category'' = Some (JString ''Incomplete/Generic Answer''))"
    using ex_cap_answers by blast
  show ?thesis
    using partial_failure_isolation [OF unique_index_read_csv, of 3 ex_four ex_cap
        "\<lambda>k. ''Payments and transfers''" "\<lambda>k. ''Faster Payment System (FPS)''"
        "\<lambda>k. ''Not helpful.''" "\<lambda>k. ''Incomplete/Generic Answer''", OF _ fail ok]
    by (simp add: unique_index_read_csv fail body_read_csv_ex_four columns_read_csv_ex_four
        ex_row_fields ex_row4_fields strip_samples)
qed

subsection \<open>Scenario tagging\<close>

lemma user_question_if_scenario:
  "user_question (if c then r\<lparr>scenario := x\<rparr> else r) = user_question r"
  by simp

lemma tag_row_eq:
  "tag_row S X (idx, r) = at_update idx (\<lambda>r'. r'\<lparr>scenario := Str (scenario_tag S (user_question r))\<rparr>) X"
  by (simp add: tag_row_def scenario_tag_def Let_def)

lemma add_scenario_mapping_body:
  assumes "unique_index df" and "body df \<noteq> []" and "load_mapped_questions e \<noteq> {}"
  shows "add_scenario_mapping e df =
     Inr \<lparr>columns = columns df @ (if ''scenario'' \<notin> set (columns df) then [''scenario''] else []),
          body = map (\<lambda>(idx, r). (idx, r\<lparr>scenario := Str (scenario_tag (load_mapped_questions e) (user_question r))\<rparr>))
                   (body df)\<rparr>"
proof -
  let ?S = "load_mapped_questions e"
  let ?g = "\<lambda>r. if ''scenario'' \<notin> set (columns df) then r\<lparr>scenario := Str []\<rparr> else r"
  let ?cols = "columns df @ (if ''scenario'' \<notin> set (columns df) then [''scenario''] else [])"
  let ?u = "\<lambda>(k::nat) (idx::nat) r. (\<lambda>r'. r'\<lparr>scenario := Str (scenario_tag ?S (user_question r))\<rparr>)"
  define res where "res = (if ''scenario'' \<notin> set (columns df)
               then add_column ''scenario'' (\<lambda>r. r\<lparr>scenario := Str []\<rparr>) df
               else df)"
  have bres: "body res = map (\<lambda>(j, r). (j, ?g r)) (body df)"
    by (simp add: res_def add_column_def case_prod_unfold)
  have cres: "columns res = ?cols"
    by (simp add: res_def add_column_def)
  have res: "res = \<lparr>columns = ?cols, body = map (\<lambda>(j, r). (j, ?g r)) (body df)\<rparr>"
    using bres cres by simp
  have "foldl (tag_row ?S) res (body res)
      = foldl (\<lambda>df (i, f). at_update i f df) res
          (map (\<lambda>(idx, r). (idx, ?u 0 idx r)) (body df))"
    by (simp add: bres foldl_map case_prod_unfold tag_row_eq user_question_if_scenario)
  also have "map (\<lambda>(idx, r). (idx, ?u 0 idx r)) (body df)
      = map (\<lambda>(k, idx, r). (idx, ?u k idx r)) (enumerate 0 (body df))"
    by (rule map_enumerate_snd [symmetric])
  also have "foldl (\<lambda>df (i, f). at_update i f df) res \<dots>
      = \<lparr>columns = ?cols, body = map (\<lambda>(k, idx, r). (idx, ?u k idx r (?g r))) (enumerate 0 (body df))\<rparr>"
    using dispatch_pointwise [of "body df" ?cols ?g ?u 0] assms(1) res
    by (simp add: unique_index_def)
  also have "map (\<lambda>(k, idx, r). (idx, ?u k idx r (?g r))) (enumerate 0 (body df))
      = map (\<lambda>(idx, r). (idx, r\<lparr>scenario := Str (scenario_tag ?S (user_question r))\<rparr>)) (body df)"
  proof -
    have "map (\<lambda>(k, idx, r). (idx, ?u k idx r (?g r))) (enumerate 0 (body df))
        = map (\<lambda>(k, idx, r). (idx, r\<lparr>scenario := Str (scenario_tag ?S (user_question r))\<rparr>)) (enumerate 0 (body df))"
      by (rule map_enumerate_cong) simp
    then show ?thesis by (simp only: map_enumerate_snd)
  qed
  finally have "foldl (tag_row ?S) res (body res) =
      \<lparr>columns = ?cols,
       body = map (\<lambda>(idx, r). (idx, r\<lparr>scenario := Str (scenario_tag ?S (user_question r))\<rparr>)) (body df)\<rparr>" .
  moreover have "body res \<noteq> []"
    using assms(2) by (simp add: bres)
  ultimately show ?thesis
    using assms(3) by (simp add: add_scenario_mapping_def Let_def res_def [symmetric])
qed

lemma normalise_samples:
  "strip (lower ''what is fps'') = ''what is fps''"
  "strip (lower ''What is FPS?'') = ''what is fps?''"
  "strip (lower ''How do I open an account?'') = ''how do i open an account?''"
  "strip (lower ''  What is FPS '') = ''what is fps''"
  by (simp_all add: strip_def lower_def lower_char_def is_space_def)

text \<open>
  C7, as the code has it. With a readable, non-empty reference list, every record of a
  non-empty frame with distinct index labels is tagged \<^verbatim>\<open>A\<close> when its question, lower-cased
  and then trimmed, is a lower-cased and trimmed entry of the reference list, and \<^verbatim>\<open>B\<close>
  otherwise. Nothing but case and surrounding whitespace is normalised: punctuation
  stays. So with the reference entry \<^verbatim>\<open>what is fps\<close> the question \<^verbatim>\<open>  What is FPS \<close> is
  tagged \<^verbatim>\<open>A\<close>, and both \<^verbatim>\<open>What is FPS?\<close> and \<^verbatim>\<open>How do I open an account?\<close> are tagged
  \<^verbatim>\<open>B\<close>.
\<close>

theorem scenario_by_normalised_membership:
  assumes "unique_index df" and "body df \<noteq> []"
    and "mapped_questions_file e = Readable qs" and "qs \<noteq> []"
  shows "\<exists>tagged. add_scenario_mapping e df = Inr tagged
           \<and> map fst (body tagged) = map fst (body df)
           \<and> map (scenario \<circ> snd) (body tagged) =
               map (\<lambda>(idx, r). Str (if Str (strip (lower (user_question r))) \<in> normalize_cell ` set qs
                                     then ''A'' else ''B''))
                 (body df)"
proof -
  from assms(3,4) have S: "load_mapped_questions e = normalize_cell ` set qs"
    and ne: "load_mapped_questions e \<noteq> {}"
    by (simp_all add: load_mapped_questions_def)
  show ?thesis
    unfolding add_scenario_mapping_body [OF assms(1,2) ne]
    by (simp add: S scenario_tag_def case_prod_unfold comp_def)
qed

text \<open>The theorem on the three sample questions.\<close>

theorem scenario_by_normalised_membership_witness:
  "unique_index fps_frame \<and> body fps_frame \<noteq> []
   \<and> mapped_questions_file fps_env = Readable [Str ''what is fps'']
   \<and> (\<exists>tagged. add_scenario_mapping fps_env fps_frame = Inr tagged
         \<and> map (scenario \<circ> snd) (body tagged) = [Str ''B'', Str ''B'', Str ''A''])"
proof -
  have u: "unique_index fps_frame" and b: "body fps_frame \<noteq> []"
    by (simp_all add: unique_index_def fps_frame_def)
  have m: "mapped_questions_file fps_env = Readable [Str ''what is fps'']"
    by (simp add: fps_env_def)
  from scenario_by_normalised_membership [OF u b m]
  obtain tagged where t: "add_scenario_mapping fps_env fps_frame = Inr tagged"
    and s: "map (scenario \<circ> snd) (body tagged) =
               map (\<lambda>(idx, r). Str (if Str (strip (lower (user_question r))) \<in> normalize_cell ` set [Str ''what is fps'']
                                     then ''A'' else ''B''))
                 (body fps_frame)"
    by auto
  have "map (\<lambda>(idx, r). Str (if Str (strip (lower (user_question r))) \<in> normalize_cell ` set [Str ''what is fps'']
                                     then ''A'' else ''B''))
                 (body fps_frame) = [Str ''B'', Str ''B'', Str ''A'']"
    by (simp add: fps_frame_def mk_row_def normalise_samples)
  with t s u b m show ?thesis by simp
qed

text \<open>
  C7 as stated fails: against the known question set \<^verbatim>\<open>{"what is fps"}\<close> the record whose
  question is \<^verbatim>\<open>What is FPS?\<close> is tagged \<^verbatim>\<open>B\<close>, the question mark not being part of the
  reference entry.
\<close>

theorem question_mark_is_scenario_B:
  "load_mapped_questions fps_env = {Str ''what is fps''}
   \<and> user_question (snd (body fps_frame ! 0)) = ''What is FPS?''
   \<and> map (scenario \<circ> snd) (body (projr (add_scenario_mapping fps_env fps_frame))) ! 0 = Str ''B''"
proof -
  have u: "unique_index fps_frame" and b: "body fps_frame \<noteq> []"
    by (simp_all add: unique_index_def fps_frame_def)
  have S: "load_mapped_questions fps_env = {Str ''what is fps''}"
    by (simp add: load_mapped_questions_def fps_env_def normalise_samples)
  then have ne: "load_mapped_questions fps_env \<noteq> {}" by simp
  show ?thesis
    unfolding add_scenario_mapping_body [OF u b ne]
    by (simp add: S fps_frame_def mk_row_def scenario_tag_def normalise_samples)
qed

subsection \<open>Category classification\<close>

lemma fallback_in_taxonomy: "in_taxonomy (Some (Str ''other''), Some (Str ''General''))"
  by (simp add: sitemap_def)

text \<open>
  C8, as the code has it. \<^verbatim>\<open>categorize_question_async\<close> returns the fallback pair
  \<^verbatim>\<open>other\<close>/\<^verbatim>\<open>General\<close>, a pair of the taxonomy, when the call fails or its content is
  not a JSON object. When the response is an object it returns the texts of its
  \<^verbatim>\<open>category\<close> and \<^verbatim>\<open>sub_category\<close> fields as they are, without looking them up in the
  sitemap, with \<^verbatim>\<open>other\<close> for a missing \<^verbatim>\<open>category\<close> field and \<^verbatim>\<open>General\<close> for a missing
  \<^verbatim>\<open>sub_category\<close> field. So the returned pair is in the taxonomy exactly when the
  response names one that is.
\<close>

theorem categorize_question_async_result:
  "(cap k (CategorizeQuestion q a) = Failure \<longrightarrow>
      fst (categorize_question_async cap k q a) = (Some (Str ''other''), Some (Str ''General'')))
   \<and> (cap k (CategorizeQuestion q a) = JObject result
        \<and> result ''category'' = Some (JString c) \<and> result ''sub_category'' = Some (JString s) \<longrightarrow>
      fst (categorize_question_async cap k q a) = (Some (Str c), Some (Str s)))
   \<and> (cap k (CategorizeQuestion q a) = JObject result \<and> result ''category'' = None \<longrightarrow>
      fst (fst (categorize_question_async cap k q a)) = Some (Str ''other''))
   \<and> (cap k (CategorizeQuestion q a) = JObject result \<and> result ''sub_category'' = None \<longrightarrow>
      snd (fst (categorize_question_async cap k q a)) = Some (Str ''General''))
   \<and> in_taxonomy (Some (Str ''other''), Some (Str ''General''))"
  using fallback_in_taxonomy
  by (simp add: categorize_question_async_def dict_get_def)

text \<open>The theorem at a failing call and at an answered one.\<close>

theorem categorize_question_async_result_witness:
  "failing_cap 0 (CategorizeQuestion ''What is FPS?'' ''Please call us.'') = Failure
   \<and> fst (categorize_question_async failing_cap 0 ''What is FPS?'' ''Please call us.'')
       = (Some (Str ''other''), Some (Str ''General''))
   \<and> ex_cap 0 (CategorizeQuestion ''What is FPS?'' ''Please call us.'') = JObject ex_answer
   \<and> fst (categorize_question_async ex_cap 0 ''What is FPS?'' ''Please call us.'')
       = (Some (Str ''Payments and transfers''), Some (Str ''Faster Payment System (FPS)''))
   \<and> in_taxonomy (fst (categorize_question_async ex_cap 0 ''What is FPS?'' ''Please call us.''))"
proof -
  have f: "failing_cap 0 (CategorizeQuestion ''What is FPS?'' ''Please call us.'') = Failure"
    by (simp add: failing_cap_def)
  have o: "ex_cap 0 (CategorizeQuestion ''What is FPS?'' ''Please call us.'') = JObject ex_answer"
    by (simp add: ex_cap_def)
  have a: "ex_answer ''category'' = Some (JString ''Payments and transfers'')"
    "ex_answer ''sub_category'' = Some (JString ''Faster Payment System (FPS)'')"
    by (simp_all add: ex_answer_def)
  have t: "in_taxonomy (Some (Str ''Payments and transfers''), Some (Str ''Faster Payment System (FPS)''))"
    by (simp add: sitemap_def)
  show ?thesis
    using categorize_question_async_result [of failing_cap 0 "''What is FPS?''" "''Please call us.''"]
      categorize_question_async_result [of ex_cap 0 "''What is FPS?''" "''Please call us.''" ex_answer
        "''Payments and transfers''" "''Faster Payment System (FPS)''"]
    by (simp add: f o a t del: in_taxonomy.simps)
qed

text \<open>
  C8 as stated fails: a response that names the category \<^verbatim>\<open>Pets\<close> with sub-category
  \<^verbatim>\<open>Dogs\<close> is returned as it is, and is neither in the taxonomy nor the fallback pair.
\<close>

theorem category_outside_taxonomy:
  "pets_cap 0 (CategorizeQuestion ''Can I insure my dog?'' ''Please call us.'') = JObject pets_answer
   \<and> fst (categorize_question_async pets_cap 0 ''Can I insure my dog?'' ''Please call us.'')
       = (Some (Str ''Pets''), Some (Str ''Dogs''))
   \<and> \<not> in_taxonomy (fst (categorize_question_async pets_cap 0 ''Can I insure my dog?'' ''Please call us.''))"
  by (simp add: categorize_question_async_def pets_cap_def pets_answer_def dict_get_def sitemap_def)

subsection \<open>The comment step: keys and files\<close>

lemma paths_distinct: "data_file \<noteq> comments_output_file"
  by (simp add: data_file_def comments_output_file_def)

lemma to_csv_read_csv: "to_csv (read_csv t) = t"
  by (simp add: to_csv_def read_csv_def)

lemma filter_unprocessed_records_eq:
  assumes "unique_index df"
  shows "filter_unprocessed_records d df f =
           df\<lparr>body := filter (\<lambda>(idx, r). create_record_key r \<notin> get_processed_records d f) (body df)\<rparr>"
proof (cases "get_processed_records d f = {}")
  case True
  then show ?thesis by (simp add: filter_unprocessed_records_def)
next
  case False
  then show ?thesis
    using loc_filter [OF assms] by (simp add: filter_unprocessed_records_def)
qed

lemma unique_index_filter_unprocessed:
  "unique_index df \<Longrightarrow> unique_index (filter_unprocessed_records d df f)"
  by (simp add: filter_unprocessed_records_eq) (simp add: unique_index_def distinct_map_filter)

lemma key_put_comment_result:
  "create_record_key (put_comment_result x r) = create_record_key r"
proof (cases x)
  case (Inl e)
  then show ?thesis by simp
next
  case (Inr p)
  then show ?thesis
    by (cases p) (simp add: put_comment_def create_record_key_def split: option.splits)
qed

lemma key_new_comment_column:
  "create_record_key (new_comment_column cols r) = create_record_key r"
  by (simp add: new_comment_column_def create_record_key_def)

lemma keys_add_comments_async:
  assumes "unique_index df"
  shows "map create_record_key (map snd (body (fst (add_comments_async cap df))))
           = map create_record_key (map snd (body df))"
proof -
  have "map create_record_key (map snd (body (fst (add_comments_async cap df))))
      = map (\<lambda>(k, idx, r). create_record_key r) (enumerate 0 (body df))"
    unfolding add_comments_async_body [OF assms]
    by (simp add: case_prod_unfold key_put_comment_result key_new_comment_column)
  also have "\<dots> = map (\<lambda>(idx, r). create_record_key r) (body df)"
    by (rule map_enumerate_snd)
  finally show ?thesis by (simp add: case_prod_unfold)
qed

lemma set_keys_keep_last: "set (map k (keep_last k zs)) = set (map k zs)"
  by (induction zs) auto

lemma keys_merge:
  "create_record_key ` set (map snd (body new_df))
     \<subseteq> create_record_key ` set (map snd (body (merge_with_existing_results d new_df f)))
   \<and> get_processed_records d f
     \<subseteq> create_record_key ` set (map snd (body (merge_with_existing_results d new_df f)))"
proof (cases "d f")
  case Absent
  then show ?thesis by (simp add: merge_with_existing_results_def get_processed_records_def)
next
  case (Unreadable t)
  then show ?thesis by (simp add: merge_with_existing_results_def get_processed_records_def)
next
  case (Readable t)
  have "set (map create_record_key (keep_last create_record_key (snd t @ map snd (body new_df))))
      = set (map create_record_key (snd t @ map snd (body new_df)))"
    by (rule set_keys_keep_last)
  then show ?thesis
    using Readable rows_merge_Readable [of d f t new_df] get_processed_records_Readable [of d f t]
    by (auto simp: image_Un image_image)
qed

subsection \<open>Idempotent incremental processing\<close>

lemma unique_index_loaded:
  "load_feedback_data d = Inr df \<Longrightarrow> unique_index df"
  by (auto simp: load_feedback_data_def DataFrame_def unique_index_def read_csv_def
      split: stored.splits)

lemma process_comments_only_idle:
  assumes "load_feedback_data d = Inr df"
    and "empty_frame df \<or> empty_frame (filter_unprocessed_records d df comments_output_file)"
  shows "process_comments_only e d =
           (if empty_frame df then (Inr df, d, [])
            else case d comments_output_file of
                   Absent \<Rightarrow> (Inr df, d, [])
                 | Unreadable t \<Rightarrow> (Inl ReadError, d, [])
                 | Readable t \<Rightarrow> (Inr (read_csv t), d, []))"
  using assms by (auto simp: process_comments_only_def Let_def)

lemma process_comments_only_work:
  assumes "load_feedback_data d = Inr df" and "\<not> empty_frame df"
    and "\<not> empty_frame (filter_unprocessed_records d df comments_output_file)"
  shows "process_comments_only e d =
           (Inr (merge_with_existing_results d
                   (fst (add_comments_async (llm e) (filter_unprocessed_records d df comments_output_file)))
                   comments_output_file),
            save_results e
              (merge_with_existing_results d
                   (fst (add_comments_async (llm e) (filter_unprocessed_records d df comments_output_file)))
                   comments_output_file)
              comments_output_file d,
            snd (add_comments_async (llm e) (filter_unprocessed_records d df comments_output_file)))"
  using assms by (simp add: process_comments_only_def Let_def case_prod_unfold)

lemma filter_empty_frame:
  "empty_frame df \<Longrightarrow> empty_frame (filter_unprocessed_records d df f)"
  by (simp add: filter_unprocessed_records_def empty_frame_def loc_def Let_def)

lemma filter_all_processed:
  assumes "unique_index df"
    and "\<forall>p \<in> set (body df). create_record_key (snd p) \<in> get_processed_records d f"
  shows "empty_frame (filter_unprocessed_records d df f)"
  using assms(2)
  by (simp add: filter_unprocessed_records_eq [OF assms(1)] empty_frame_def filter_empty_conv
      case_prod_unfold)

lemma enumerate_eq_Nil: "(enumerate n xs = []) = (xs = [])"
  by (cases xs) simp_all

lemma fresh_disk_simps:
  "fresh_disk data_file = Readable ex_base"
  "fresh_disk comments_output_file = Absent"
  by (simp_all add: fresh_disk_def data_file_def comments_output_file_def)

lemma broken_disk_simps:
  "broken_disk data_file = Readable ex_base"
  "broken_disk comments_output_file = Unreadable ex_stale"
  by (simp_all add: broken_disk_def data_file_def comments_output_file_def)

lemma ex_env_simps:
  "llm ex_env = ex_cap" "\<not> to_csv_raises ex_env p"
  by (simp_all add: ex_env_def)

lemma add_comments_async_ex_base:
  "map snd (body (fst (add_comments_async ex_cap (read_csv ex_base))))
     = [ex_row1\<lparr>feedback_comment := Str ''Not helpful.''\<rparr>, ex_row2, ex_row3]"
  unfolding add_comments_async_body [OF unique_index_read_csv]
  by (simp add: body_read_csv_ex_base columns_read_csv_ex_base process_single_comment_def
      ex_row_fields strip_samples generate_bot_comment_async_def ex_cap_def ex_answer_def
      dict_get_def put_comment_def new_comment_column_def)

lemma process_comments_only_fresh:
  "process_comments_only ex_env fresh_disk =
     (Inr (fst (add_comments_async ex_cap (read_csv ex_base))),
      fresh_disk(comments_output_file :=
        Readable (to_csv (fst (add_comments_async ex_cap (read_csv ex_base))))),
      snd (add_comments_async ex_cap (read_csv ex_base)))"
proof -
  have load: "load_feedback_data fresh_disk = Inr (read_csv ex_base)"
    by (simp add: load_feedback_data_def fresh_disk_simps)
  have f: "filter_unprocessed_records fresh_disk (read_csv ex_base) comments_output_file = read_csv ex_base"
    by (simp add: filter_unprocessed_records_def get_processed_records_def fresh_disk_simps)
  have ne: "\<not> empty_frame (read_csv ex_base)"
    by (simp add: empty_frame_def body_read_csv_ex_base)
  show ?thesis
    using process_comments_only_work [OF load ne, of ex_env] ne
    by (simp add: f merge_with_existing_results_def fresh_disk_simps save_results_def ex_env_simps)
qed

lemma ex_row4_key:
  "create_record_key ex_row4 = ''2024-05-01 10:12:00|Where is my card?|Please call us.''"
  by (simp add: ex_row4_def mk_row_def create_record_key_def)

text \<open>
  C3, for the comment step \<^verbatim>\<open>process_comments_only\<close>. Let a first run return a dataset
  and have its \<^verbatim>\<open>to_csv\<close> not raise, so that what it produced is on disk. Then the base
  dataset is the same after the run; filtered against the output the run left, it has no
  unprocessed record; and a second run, under any capability, sends no call, leaves the
  disk as it found it and returns the rows and columns that the first run returned.
\<close>

theorem second_run_is_noop:
  assumes run1: "process_comments_only e1 d = (Inr out1, d1, sent1)"
    and saved: "\<not> to_csv_raises e1 comments_output_file"
  shows "\<exists>df. load_feedback_data d = Inr df \<and> load_feedback_data d1 = Inr df
           \<and> empty_frame (filter_unprocessed_records d1 df comments_output_file)
           \<and> (\<exists>out2. process_comments_only e2 d1 = (Inr out2, d1, []) \<and> to_csv out2 = to_csv out1)"
proof -
  let ?f = comments_output_file
  from run1 obtain df where load: "load_feedback_data d = Inr df"
    by (cases "load_feedback_data d") (auto simp: process_comments_only_def)
  have u: "unique_index df" using load by (rule unique_index_loaded)
  let ?un = "filter_unprocessed_records d df ?f"
  show ?thesis
  proof (cases "empty_frame df \<or> empty_frame ?un")
    case True
    then have un: "empty_frame ?un" using filter_empty_frame by blast
    have same: "process_comments_only e2 d = process_comments_only e1 d"
      using process_comments_only_idle [OF load True, of e1]
        process_comments_only_idle [OF load True, of e2] by simp
    have "d1 = d \<and> sent1 = []"
      using run1 process_comments_only_idle [OF load True, of e1]
      by (auto split: if_splits stored.splits)
    with run1 same load un show ?thesis by auto
  next
    case False
    then have ne: "\<not> empty_frame df" and nun: "\<not> empty_frame ?un" by simp_all
    let ?new = "fst (add_comments_async (llm e1) ?un)"
    let ?final = "merge_with_existing_results d ?new ?f"
    have "(Inr out1 :: exn + dataframe, d1, sent1) =
        (Inr ?final, save_results e1 ?final ?f d, snd (add_comments_async (llm e1) ?un))"
      using trans [OF run1 [symmetric] process_comments_only_work [OF load ne nun, of e1]] .
    with saved have out1: "out1 = ?final" and d1: "d1 = d(?f := Readable (to_csv ?final))"
      by (auto simp: save_results_def)
    have load1: "load_feedback_data d1 = Inr df"
      using load paths_distinct by (simp add: d1 load_feedback_data_def)
    have file1: "d1 ?f = Readable (to_csv ?final)" by (simp add: d1)
    have keys1: "get_processed_records d1 ?f = create_record_key ` set (map snd (body ?final))"
      using get_processed_records_Readable [of d1 ?f "to_csv ?final"] file1 by (simp add: to_csv_def)
    have uun: "unique_index ?un" using u by (rule unique_index_filter_unprocessed)
    have knew: "create_record_key ` set (map snd (body ?new)) = create_record_key ` set (map snd (body ?un))"
      using keys_add_comments_async [OF uun, of "llm e1"] by (metis set_map)
    have all: "\<forall>p \<in> set (body df). create_record_key (snd p) \<in> get_processed_records d1 ?f"
    proof
      fix p assume p: "p \<in> set (body df)"
      show "create_record_key (snd p) \<in> get_processed_records d1 ?f"
      proof (cases "create_record_key (snd p) \<in> get_processed_records d ?f")
        case True
        then show ?thesis using keys_merge [of ?new d ?f] keys1 by blast
      next
        case False
        with p have "p \<in> set (body ?un)"
          by (simp add: filter_unprocessed_records_eq [OF u] case_prod_unfold)
        then have "create_record_key (snd p) \<in> create_record_key ` set (map snd (body ?new))"
          using knew by auto
        then show ?thesis using keys_merge [of ?new d ?f] keys1 by blast
      qed
    qed
    have idle1: "empty_frame (filter_unprocessed_records d1 df ?f)"
      using filter_all_processed [OF u all] .
    have "process_comments_only e2 d1 = (Inr (read_csv (to_csv ?final)), d1, [])"
      using process_comments_only_idle [OF load1, of e2] idle1 ne file1 by simp
    with load load1 idle1 out1 show ?thesis
      by (simp add: to_csv_read_csv)
  qed
qed

text \<open>
  The theorem on a disk that holds the sample base file only: the first run generates a
  comment for the first record, the second run does nothing.
\<close>

theorem second_run_is_noop_witness:
  "\<not> to_csv_raises ex_env comments_output_file
   \<and> (\<exists>out1 d1 sent1.
        process_comments_only ex_env fresh_disk = (Inr out1, d1, sent1)
        \<and> map snd (body out1) = [ex_row1\<lparr>feedback_comment := Str ''Not helpful.''\<rparr>, ex_row2, ex_row3]
        \<and> load_feedback_data d1 = Inr (read_csv ex_base)
        \<and> empty_frame (filter_unprocessed_records d1 (read_csv ex_base) comments_output_file)
        \<and> (\<exists>out2. process_comments_only (ex_env\<lparr>llm := failing_cap\<rparr>) d1 = (Inr out2, d1, [])
              \<and> to_csv out2 = to_csv out1))"
proof -
  have s: "\<not> to_csv_raises ex_env comments_output_file"
    by (simp add: ex_env_simps)
  have load: "load_feedback_data fresh_disk = Inr (read_csv ex_base)"
    by (simp add: load_feedback_data_def fresh_disk_simps)
  show ?thesis
    using second_run_is_noop [OF process_comments_only_fresh s, of "ex_env\<lparr>llm := failing_cap\<rparr>"]
      process_comments_only_fresh add_comments_async_ex_base s load
    by auto
qed

subsection \<open>Unreadable prior output\<close>

text \<open>
  C10. When the prior output exists and cannot be read, \<^verbatim>\<open>merge_with_existing_results\<close>
  returns the new batch alone, so no row of the prior output whose key is absent from the
  batch is in the result. \<^verbatim>\<open>process_comments_only\<close> on such a disk, with a non-empty base
  file and a working \<^verbatim>\<open>to_csv\<close>, returns a dataset with the keys of the base file, row for
  row, and overwrites the output with it: every row the output held under a key that the
  base file lacks is gone from the file.
\<close>

theorem unreadable_prior_output_is_dropped:
  "(d f = Unreadable t \<longrightarrow>
      merge_with_existing_results d new_df f = new_df
      \<and> (\<forall>r \<in> set (snd t). create_record_key r \<notin> create_record_key ` set (map snd (body new_df)) \<longrightarrow>
            r \<notin> set (map snd (body (merge_with_existing_results d new_df f)))))
   \<and> (d comments_output_file = Unreadable t \<and> d data_file = Readable b \<and> snd b \<noteq> []
        \<and> \<not> to_csv_raises e comments_output_file \<longrightarrow>
      (\<exists>final sent.
          process_comments_only e d = (Inr final, d(comments_output_file := Readable (to_csv final)), sent)
          \<and> map create_record_key (snd (to_csv final)) = map create_record_key (snd b)
          \<and> (\<forall>r \<in> set (snd t). create_record_key r \<notin> create_record_key ` set (snd b) \<longrightarrow>
                r \<notin> set (snd (to_csv final)))))"
proof (rule conjI; rule impI)
  assume "d f = Unreadable t"
  then show "merge_with_existing_results d new_df f = new_df
      \<and> (\<forall>r \<in> set (snd t). create_record_key r \<notin> create_record_key ` set (map snd (body new_df)) \<longrightarrow>
            r \<notin> set (map snd (body (merge_with_existing_results d new_df f))))"
    by (auto simp: merge_with_existing_results_def)
next
  assume a: "d comments_output_file = Unreadable t \<and> d data_file = Readable b \<and> snd b \<noteq> []
        \<and> \<not> to_csv_raises e comments_output_file"
  let ?df = "read_csv b"
  let ?new = "fst (add_comments_async (llm e) ?df)"
  from a have load: "load_feedback_data d = Inr ?df"
    by (simp add: load_feedback_data_def)
  from a have f: "filter_unprocessed_records d ?df comments_output_file = ?df"
    by (simp add: filter_unprocessed_records_def get_processed_records_def)
  from a have ne: "\<not> empty_frame ?df"
    by (simp add: empty_frame_def read_csv_def enumerate_eq_Nil)
  have run: "process_comments_only e d =
      (Inr ?new, d(comments_output_file := Readable (to_csv ?new)), snd (add_comments_async (llm e) ?df))"
    using process_comments_only_work [OF load ne, of e] ne a
    by (simp add: f merge_with_existing_results_def save_results_def)
  have keys: "map create_record_key (snd (to_csv ?new)) = map create_record_key (snd b)"
    using keys_add_comments_async [OF unique_index_read_csv, of "llm e" b]
    by (simp add: to_csv_def read_csv_def)
  have "\<forall>r \<in> set (snd t). create_record_key r \<notin> create_record_key ` set (snd b) \<longrightarrow>
                r \<notin> set (snd (to_csv ?new))"
  proof (intro ballI impI)
    fix r assume "create_record_key r \<notin> create_record_key ` set (snd b)"
    then have "create_record_key r \<notin> set (map create_record_key (snd (to_csv ?new)))"
      by (simp add: keys)
    then show "r \<notin> set (snd (to_csv ?new))" by auto
  qed
  with run keys show "\<exists>final sent.
          process_comments_only e d = (Inr final, d(comments_output_file := Readable (to_csv final)), sent)
          \<and> map create_record_key (snd (to_csv final)) = map create_record_key (snd b)
          \<and> (\<forall>r \<in> set (snd t). create_record_key r \<notin> create_record_key ` set (snd b) \<longrightarrow>
                r \<notin> set (snd (to_csv final)))"
    by blast
qed

text \<open>
  The theorem on a disk whose unreadable comment output holds a record that the sample
  base file lacks.
\<close>

theorem unreadable_prior_output_is_dropped_witness:
  "broken_disk comments_output_file = Unreadable ex_stale
   \<and> broken_disk data_file = Readable ex_base \<and> snd ex_base \<noteq> []
   \<and> \<not> to_csv_raises ex_env comments_output_file
   \<and> ex_row4 \<in> set (snd ex_stale)
   \<and> merge_with_existing_results broken_disk ex_batch comments_output_file = ex_batch
   \<and> (\<exists>final sent.
         process_comments_only ex_env broken_disk =
           (Inr final, broken_disk(comments_output_file := Readable (to_csv final)), sent)
         \<and> ex_row4 \<notin> set (snd (to_csv final)))"
proof -
  have k: "create_record_key ex_row4 \<notin> create_record_key ` set (snd ex_base)"
    by (simp add: ex_base_def ex_rows_simps ex_row4_key)
  have m: "ex_row4 \<in> set (snd ex_stale)" "snd ex_base \<noteq> []"
    by (simp_all add: ex_stale_def ex_base_def)
  show ?thesis
    using unreadable_prior_output_is_dropped
      [of broken_disk comments_output_file ex_stale ex_batch ex_base ex_env] k m
    by (simp add: broken_disk_simps ex_env_simps) blast
qed

end
